theory Spec2Isabelle
  imports Complex_Main "HOL-Library.Word" "HOL-Library.AList" "HOL-Library.Multiset"
begin

section \<open>Configuration (gameConfig.ts)\<close>

text \<open>
  The constants of \<^verbatim>\<open>gameConfig\<close> that the simulation core reads, and the two derived
  pixel sizes of \<^verbatim>\<open>derivedConfig\<close>.
\<close>

definition arena_widthTiles :: int where "arena_widthTiles = 500"
definition arena_heightTiles :: int where "arena_heightTiles = 500"
definition config_tileSize :: int where "config_tileSize = 4"
definition player_turnSpeed :: real where "player_turnSpeed = 72 / 10"
definition shrink_campingThreshold :: real where "shrink_campingThreshold = 3"
definition shrink_rate :: real where "shrink_rate = 150"

definition arenaWidthPx :: int where
  "arenaWidthPx = arena_widthTiles * config_tileSize"

definition arenaHeightPx :: int where
  "arenaHeightPx = arena_heightTiles * config_tileSize"

section \<open>TerritoryMap (TerritoryMap.ts)\<close>

text \<open>
  The grid is a \<^verbatim>\<open>Uint8Array\<close>, so a cell is an 8-bit word: a write of the number
  \<open>n\<close> stores \<open>word_of_int n\<close> (that is \<open>n mod 256\<close>) and a read gives \<open>uint\<close> of
  the cell. Tile coordinates and owner ids are the integers the callers pass
  (\<^verbatim>\<open>Math.floor\<close> results and player ids). The cached counts are a JavaScript
  \<^verbatim>\<open>Map\<close>, kept as an association list in insertion order: \<^verbatim>\<open>Map.set\<close> is
  \<^const>\<open>AList.update\<close>, \<^verbatim>\<open>Map.get\<close> is \<^const>\<open>map_of\<close>. The fields of the class
  that only serve rendering (the cached canvas and its dirty flag) are left out.
\<close>

type_synonym Vec2 = "real \<times> real"
type_synonym tile = "int \<times> int"

record TerritoryMap =
  ownerMap :: "8 word list"
  widthTiles :: int
  heightTiles :: int
  tileSize :: int
  tileCounts :: "(int \<times> int) list"

definition newTerritoryMap :: "int \<Rightarrow> int \<Rightarrow> int \<Rightarrow> TerritoryMap" where
  "newTerritoryMap w h ts =
     \<lparr>ownerMap = replicate (nat (w * h)) 0, widthTiles = w, heightTiles = h,
      tileSize = ts, tileCounts = []\<rparr>"

text \<open>\<^verbatim>\<open>counts.get(k) || d\<close>: the default also replaces a stored zero.\<close>

definition getOr :: "(int \<times> int) list \<Rightarrow> int \<Rightarrow> int \<Rightarrow> int" where
  "getOr c k d = (case map_of c k of None \<Rightarrow> d | Some v \<Rightarrow> if v = 0 then d else v)"

definition worldToTile :: "TerritoryMap \<Rightarrow> Vec2 \<Rightarrow> tile" where
  "worldToTile t p =
     (\<lfloor>fst p / real_of_int (tileSize t)\<rfloor>, \<lfloor>snd p / real_of_int (tileSize t)\<rfloor>)"

definition isValidTile :: "TerritoryMap \<Rightarrow> int \<Rightarrow> int \<Rightarrow> bool" where
  "isValidTile t tileX tileY \<longleftrightarrow>
     tileX \<ge> 0 \<and> tileX < widthTiles t \<and> tileY \<ge> 0 \<and> tileY < heightTiles t"

definition tileIndex :: "TerritoryMap \<Rightarrow> int \<Rightarrow> int \<Rightarrow> nat" where
  "tileIndex t tileX tileY = nat (tileY * widthTiles t + tileX)"

definition getOwner :: "TerritoryMap \<Rightarrow> int \<Rightarrow> int \<Rightarrow> int" where
  "getOwner t tileX tileY =
     (if \<not> isValidTile t tileX tileY then - 1
      else uint (ownerMap t ! tileIndex t tileX tileY))"

definition setOwner :: "TerritoryMap \<Rightarrow> int \<Rightarrow> int \<Rightarrow> int \<Rightarrow> TerritoryMap" where
  "setOwner t tileX tileY ownerId =
     (if \<not> isValidTile t tileX tileY then t
      else
        let idx = tileIndex t tileX tileY;
            oldOwner = uint (ownerMap t ! idx)
        in
          if oldOwner = ownerId then t
          else
            let c1 = (if oldOwner > 0
                      then AList.update oldOwner (getOr (tileCounts t) oldOwner 1 - 1) (tileCounts t)
                      else tileCounts t);
                c2 = (if ownerId > 0
                      then AList.update ownerId (getOr c1 ownerId 0 + 1) c1
                      else c1)
            in t\<lparr>ownerMap := (ownerMap t)[idx := word_of_int ownerId], tileCounts := c2\<rparr>)"

definition getOwnerAtWorld :: "TerritoryMap \<Rightarrow> Vec2 \<Rightarrow> int" where
  "getOwnerAtWorld t p = (case worldToTile t p of (tx, ty) \<Rightarrow> getOwner t tx ty)"

definition countOwnedTiles :: "TerritoryMap \<Rightarrow> int \<Rightarrow> int" where
  "countOwnedTiles t ownerId = getOr (tileCounts t) ownerId 0"

definition getTotalTiles :: "TerritoryMap \<Rightarrow> int" where
  "getTotalTiles t = widthTiles t * heightTiles t"

definition getOwnershipPercentage :: "TerritoryMap \<Rightarrow> int \<Rightarrow> real" where
  "getOwnershipPercentage t ownerId =
     real_of_int (countOwnedTiles t ownerId) / real_of_int (getTotalTiles t) * 100"

definition clearOwnerTerritory :: "TerritoryMap \<Rightarrow> int \<Rightarrow> TerritoryMap" where
  "clearOwnerTerritory t ownerId =
     t\<lparr>ownerMap := map (\<lambda>c. if uint c = ownerId then 0 else c) (ownerMap t),
       tileCounts := AList.update ownerId 0 (tileCounts t)\<rparr>"

definition transferTerritory :: "TerritoryMap \<Rightarrow> int \<Rightarrow> int \<Rightarrow> TerritoryMap" where
  "transferTerritory t fromOwnerId toOwnerId =
     (let fromCount = getOr (tileCounts t) fromOwnerId 0;
          c1 = AList.update toOwnerId (getOr (tileCounts t) toOwnerId 0 + fromCount) (tileCounts t);
          c2 = AList.update fromOwnerId 0 c1
      in t\<lparr>ownerMap := map (\<lambda>c. if uint c = fromOwnerId then word_of_int toOwnerId else c)
                           (ownerMap t),
            tileCounts := c2\<rparr>)"

text \<open>The row-major scan order of every nested \<^verbatim>\<open>for y ... for x ...\<close> loop over the grid.\<close>

definition allTiles :: "TerritoryMap \<Rightarrow> tile list" where
  "allTiles t = concat (map (\<lambda>ty. map (\<lambda>tx. (tx, ty)) [0 .. widthTiles t - 1])
                            [0 .. heightTiles t - 1])"

definition hasNonOwnedNeighbor :: "TerritoryMap \<Rightarrow> int \<Rightarrow> tile \<Rightarrow> bool" where
  "hasNonOwnedNeighbor t ownerId p \<longleftrightarrow>
     (case p of (tx, ty) \<Rightarrow>
        getOwner t (tx - 1) ty \<noteq> ownerId \<or> getOwner t (tx + 1) ty \<noteq> ownerId \<or>
        getOwner t tx (ty - 1) \<noteq> ownerId \<or> getOwner t tx (ty + 1) \<noteq> ownerId)"

definition getBorderTiles :: "TerritoryMap \<Rightarrow> int \<Rightarrow> tile list" where
  "getBorderTiles t ownerId =
     filter (\<lambda>p. uint (ownerMap t ! tileIndex t (fst p) (snd p)) = ownerId \<and>
                 hasNonOwnedNeighbor t ownerId p)
            (allTiles t)"

subsection \<open>Full rescans, for comparison with the cache\<close>

definition rescanCount :: "TerritoryMap \<Rightarrow> int \<Rightarrow> int" where
  "rescanCount t ownerId = int (length (filter (\<lambda>c. uint c = ownerId) (ownerMap t)))"

definition ownedTiles :: "TerritoryMap \<Rightarrow> int \<Rightarrow> nat list" where
  "ownedTiles t ownerId =
     filter (\<lambda>i. uint (ownerMap t ! i) = ownerId) [0 ..< length (ownerMap t)]"

definition sumCounts :: "TerritoryMap \<Rightarrow> int" where
  "sumCounts t = sum_list (map snd (tileCounts t))"

text \<open>
  The constructor allocates one cell per tile; \<^verbatim>\<open>widthTiles\<close> and \<^verbatim>\<open>heightTiles\<close>
  are read-only afterwards, so every state of the class has this shape.
\<close>

definition wellFormed :: "TerritoryMap \<Rightarrow> bool" where
  "wellFormed t \<longleftrightarrow> length (ownerMap t) = nat (widthTiles t * heightTiles t)"

subsection \<open>Sequences of mutations\<close>

text \<open>
  The three mutating methods of the class as a datatype of calls, to speak about every
  sequence of them. Owner ids of agents are \<open>1..255\<close> (\<open>0\<close> is the neutral value and a cell
  cannot hold more than \<open>255\<close>); \<^verbatim>\<open>setOwner\<close> is also called with \<open>0\<close>, to release a tile.
\<close>

datatype mutation = SetOwner int int int | TransferTerritory int int | ClearOwnerTerritory int

fun applyMutation :: "TerritoryMap \<Rightarrow> mutation \<Rightarrow> TerritoryMap" where
  "applyMutation t (SetOwner tx ty v) = setOwner t tx ty v"
| "applyMutation t (TransferTerritory a b) = transferTerritory t a b"
| "applyMutation t (ClearOwnerTerritory a) = clearOwnerTerritory t a"

definition applyMutations :: "TerritoryMap \<Rightarrow> mutation list \<Rightarrow> TerritoryMap" where
  "applyMutations t ms = foldl applyMutation t ms"

definition validOwner :: "int \<Rightarrow> bool" where
  "validOwner k \<longleftrightarrow> 1 \<le> k \<and> k \<le> 255"

definition keysValid :: "(int \<times> int) list \<Rightarrow> bool" where
  "keysValid c \<longleftrightarrow> (\<forall>k \<in> fst ` set c. validOwner k)"

fun idsInRange :: "mutation \<Rightarrow> bool" where
  "idsInRange (SetOwner tx ty v) = (0 \<le> v \<and> v \<le> 255)"
| "idsInRange (TransferTerritory a b) = (validOwner a \<and> validOwner b)"
| "idsInRange (ClearOwnerTerritory a) = validOwner a"

text \<open>A transfer between two different owners, as the game performs them (killer and victim).\<close>

fun properMutation :: "mutation \<Rightarrow> bool" where
  "properMutation (TransferTerritory a b) = (validOwner a \<and> validOwner b \<and> a \<noteq> b)"
| "properMutation m = idsInRange m"

definition cacheCorrect :: "TerritoryMap \<Rightarrow> bool" where
  "cacheCorrect t \<longleftrightarrow> (\<forall>k. validOwner k \<longrightarrow> countOwnedTiles t k = rescanCount t k)"

definition cacheInvariant :: "TerritoryMap \<Rightarrow> bool" where
  "cacheInvariant t \<longleftrightarrow>
     wellFormed t \<and> 0 \<le> widthTiles t \<and> 0 \<le> heightTiles t \<and>
     distinct (map fst (tileCounts t)) \<and> keysValid (tileCounts t) \<and> cacheCorrect t"

section \<open>Player (Player.ts)\<close>

record Player =
  ident :: int
  isBot :: bool
  pos :: Vec2
  dir :: Vec2
  speed :: real
  alive :: bool
  angle :: real
  targetAngle :: real
  tail :: "Vec2 list"
  isDrawingTail :: bool
  lastTailPoint :: "Vec2 option"
  kills :: int
  timeAlive :: real


text \<open>
  The two loops that bring the angle difference into \<open>[-\<pi>, \<pi>]\<close>. Numbers are real
  numbers here, not IEEE doubles.
\<close>

function wrapDown :: "real \<Rightarrow> real" where
  "wrapDown d = (if d > pi then wrapDown (d - pi * 2) else d)"
  by pat_completeness auto
termination
proof (relation "measure (\<lambda>d. nat \<lceil>(d - pi) / (pi * 2)\<rceil>)")
  show "wf (measure (\<lambda>d. nat \<lceil>(d - pi) / (pi * 2)\<rceil>))" by simp
next
  fix d :: real
  assume d: "pi < d"
  have "(d - pi * 2 - pi) / (pi * 2) = (d - pi) / (pi * 2) - 1"
    by (simp add: field_simps)
  then have "\<lceil>(d - pi * 2 - pi) / (pi * 2)\<rceil> = \<lceil>(d - pi) / (pi * 2)\<rceil> - 1"
    by simp
  moreover have "0 < (d - pi) / (pi * 2)" using d by simp
  then have "0 < \<lceil>(d - pi) / (pi * 2)\<rceil>" by simp
  ultimately show "(d - pi * 2, d) \<in> measure (\<lambda>d. nat \<lceil>(d - pi) / (pi * 2)\<rceil>)"
    by simp
qed

function wrapUp :: "real \<Rightarrow> real" where
  "wrapUp d = (if d < - pi then wrapUp (d + pi * 2) else d)"
  by pat_completeness auto
termination
proof (relation "measure (\<lambda>d. nat \<lceil>(- pi - d) / (pi * 2)\<rceil>)")
  show "wf (measure (\<lambda>d. nat \<lceil>(- pi - d) / (pi * 2)\<rceil>))" by simp
next
  fix d :: real
  assume d: "d < - pi"
  have "(- pi - (d + pi * 2)) / (pi * 2) = (- pi - d) / (pi * 2) - 1"
    by (simp add: field_simps)
  then have "\<lceil>(- pi - (d + pi * 2)) / (pi * 2)\<rceil> = \<lceil>(- pi - d) / (pi * 2)\<rceil> - 1"
    by simp
  moreover have "0 < (- pi - d) / (pi * 2)" using d by simp
  then have "0 < \<lceil>(- pi - d) / (pi * 2)\<rceil>" by simp
  ultimately show "(d + pi * 2, d) \<in> measure (\<lambda>d. nat \<lceil>(- pi - d) / (pi * 2)\<rceil>)"
    by simp
qed

declare wrapDown.simps [simp del] wrapUp.simps [simp del]

definition Player_update :: "Player \<Rightarrow> real \<Rightarrow> Player" where
  "Player_update p dt =
     (if \<not> alive p then p
      else
        let turnSpeed = player_turnSpeed;
            angleDiff = wrapUp (wrapDown (targetAngle p - angle p));
            maxTurn = turnSpeed * dt;
            angle' = (if \<bar>angleDiff\<bar> > maxTurn then angle p + sgn angleDiff * maxTurn
                      else targetAngle p);
            dir' = (cos angle', sin angle');
            moveX = fst dir' * speed p * dt;
            moveY = snd dir' * speed p * dt;
            newX = fst (pos p) + moveX;
            newY = snd (pos p) + moveY;
            edgeMargin = 2;
            minX = edgeMargin;
            minY = edgeMargin;
            maxX = real_of_int arenaWidthPx - edgeMargin;
            maxY = real_of_int arenaHeightPx - edgeMargin;
            newX' = max minX (min maxX newX);
            newY' = max minY (min maxY newY)
        in p\<lparr>pos := (newX', newY'), dir := dir', angle := angle',
              timeAlive := timeAlive p + dt\<rparr>)"

text \<open>The condition under which \<^verbatim>\<open>Game.checkWallCollisions\<close> kills a live player.\<close>

definition hitsWall :: "Player \<Rightarrow> bool" where
  "hitsWall p \<longleftrightarrow>
     (let arenaW = real_of_int arenaWidthPx;
          arenaH = real_of_int arenaHeightPx;
          margin = 2
      in fst (pos p) < margin \<or> fst (pos p) > arenaW - margin \<or>
         snd (pos p) < margin \<or> snd (pos p) > arenaH - margin)"




section \<open>Game (the simulation core of the Game class)\<close>

text \<open>
  The fields of the class that the simulation reads or writes. A \<^verbatim>\<open>Player\<close> object is
  shared by reference between \<^verbatim>\<open>allPlayers\<close>, the capture queue and the callers, so a
  reference is an index into \<^verbatim>\<open>allPlayers\<close> and every change of a player is a change of
  that list. \<^verbatim>\<open>performance.now()\<close> and \<^verbatim>\<open>Math.random()\<close> are inputs from the
  environment: the \<open>n\<close>-th call returns the \<open>n\<close>-th value of a source the state carries.
  Console output is left out.
\<close>

datatype Difficulty = Easy | Medium | Hard | Impossible

record CaptureJob =
  jobPlayer :: nat
  jobTail :: "Vec2 list"

record Game =
  territoryMap :: TerritoryMap
  allPlayers :: "Player list"
  wasInOwnTerritory :: "(int \<times> bool) list"
  captureQueue :: "CaptureJob list"
  maxCaptureTimePerFrame :: real
  isMobile :: bool
  campingTimers :: "(int \<times> real) list"
  shrinkAccumulators :: "(int \<times> real) list"
  difficulty :: Difficulty
  boostEndTimes :: "(int \<times> real) list"
  boostNotifications :: "(int \<times> real) list"
  killEffects :: "(real \<times> real \<times> real) list"
  orphanCheckCounter :: int
  clockSource :: "nat \<Rightarrow> real"
  clockCalls :: nat
  randomSource :: "nat \<Rightarrow> real"
  randomCalls :: nat


definition performanceNow :: "Game \<Rightarrow> real \<times> Game" where
  "performanceNow g = (clockSource g (clockCalls g), g\<lparr>clockCalls := Suc (clockCalls g)\<rparr>)"

definition mathRandom :: "Game \<Rightarrow> real \<times> Game" where
  "mathRandom g = (randomSource g (randomCalls g), g\<lparr>randomCalls := Suc (randomCalls g)\<rparr>)"

text \<open>\<^verbatim>\<open>timers.get(id) || 0\<close> on a map of numbers.\<close>

definition getOrZero :: "(int \<times> real) list \<Rightarrow> int \<Rightarrow> real" where
  "getOrZero c k = (case map_of c k of None \<Rightarrow> 0 | Some v \<Rightarrow> v)"


subsection \<open>Boost\<close>

definition isPlayerBoosted :: "Game \<Rightarrow> int \<Rightarrow> bool \<times> Game" where
  "isPlayerBoosted g playerId =
     (case map_of (boostEndTimes g) playerId of
        None \<Rightarrow> (False, g)
      | Some endTime \<Rightarrow> (case performanceNow g of (now, g') \<Rightarrow> (now < endTime, g')))"


definition addKillEffect :: "Game \<Rightarrow> Vec2 \<Rightarrow> Game" where
  "addKillEffect g p =
     (case performanceNow g of (now, g') \<Rightarrow>
        g'\<lparr>killEffects := killEffects g' @ [(fst p, snd p, now)]\<rparr>)"

subsection \<open>Death and respawn\<close>

definition squareOffsets :: "int \<Rightarrow> (int \<times> int) list" where
  "squareOffsets radius =
     concat (map (\<lambda>dy. map (\<lambda>dx. (dx, dy)) [- radius .. radius]) [- radius .. radius])"

definition generateStartingTerritory ::
    "TerritoryMap \<Rightarrow> Vec2 \<Rightarrow> int \<Rightarrow> int \<Rightarrow> TerritoryMap" where
  "generateStartingTerritory t center ownerId radius =
     (case worldToTile t center of (cx, cy) \<Rightarrow>
        foldl (\<lambda>t' (dx, dy).
                 let distance = sqrt (real_of_int (dx * dx + dy * dy));
                     noise = sin (real_of_int dx * (1 / 2)) * cos (real_of_int dy * (7 / 10)) * 2;
                     threshold = real_of_int radius + noise
                 in if distance \<le> threshold then setOwner t' (cx + dx) (cy + dy) ownerId else t')
              t (squareOffsets radius))"

definition respawnPlayerEntity :: "Game \<Rightarrow> nat \<Rightarrow> Game" where
  "respawnPlayerEntity g i =
     (let player = allPlayers g ! i;
          playerId = ident player;
          g1 = g\<lparr>territoryMap := clearOwnerTerritory (territoryMap g) playerId\<rparr>;
          arenaW = real_of_int arenaWidthPx;
          arenaH = real_of_int arenaHeightPx;
          margin = 200
      in case (if playerId = 1 then ((arenaW / 2, arenaH / 2), g1)
               else case mathRandom g1 of (r1, g2) \<Rightarrow>
                      case mathRandom g2 of (r2, g3) \<Rightarrow>
                        ((margin + r1 * (arenaW - margin * 2), margin + r2 * (arenaH - margin * 2)), g3))
         of (spawn, g4) \<Rightarrow>
           let startRadius = (if playerId = 1 then 12 else 10);
               g5 = g4\<lparr>territoryMap :=
                       generateStartingTerritory (territoryMap g4) spawn playerId startRadius,
                     wasInOwnTerritory := AList.update playerId True (wasInOwnTerritory g4)\<rparr>
           in case mathRandom g5 of (r3, g6) \<Rightarrow>
                let a = r3 * pi * 2;
                    player' = player\<lparr>pos := spawn, tail := [], isDrawingTail := False,
                                lastTailPoint := None, angle := a, targetAngle := a,
                                dir := (cos a, sin a), alive := True\<rparr>
                in g6\<lparr>allPlayers := (allPlayers g6)[i := player']\<rparr>)"

definition handlePlayerDeath :: "Game \<Rightarrow> nat \<Rightarrow> nat option \<Rightarrow> Game" where
  "handlePlayerDeath g i killer =
     (let player = (allPlayers g ! i)\<lparr>alive := False, tail := [], isDrawingTail := False,
                                      lastTailPoint := None\<rparr>;
          g1 = g\<lparr>allPlayers := (allPlayers g)[i := player]\<rparr>;
          isHuman = (ident player = 1)
      in case killer of
           Some k \<Rightarrow>
             let killerId = ident (allPlayers g1 ! k);
                 g2 = (if difficulty g1 = Impossible \<and> killerId = 1
                       then g1\<lparr>territoryMap := clearOwnerTerritory (territoryMap g1) (ident player)\<rparr>
                       else g1\<lparr>territoryMap :=
                                 transferTerritory (territoryMap g1) (ident player) killerId\<rparr>)
             in addKillEffect g2 (pos player)
         | None \<Rightarrow>
             if isHuman
             then g1\<lparr>territoryMap := clearOwnerTerritory (territoryMap g1) (ident player)\<rparr>
             else respawnPlayerEntity
                    (g1\<lparr>territoryMap := clearOwnerTerritory (territoryMap g1) (ident player)\<rparr>) i)"

subsection \<open>Walls\<close>

definition checkWallCollisions :: "Game \<Rightarrow> Game" where
  "checkWallCollisions g =
     foldl (\<lambda>g' i. let player = allPlayers g' ! i
                    in if \<not> alive player then g'
                       else if hitsWall player then handlePlayerDeath g' i None else g')
           g [0 ..< length (allPlayers g)]"

subsection \<open>Collisions with other players' tails\<close>






subsection \<open>Camping and shrinking\<close>

text \<open>
  The Fisher-Yates shuffle of \<^verbatim>\<open>shrinkTerritory\<close>, from index \<open>i\<close> down to 1; the swap is
  the destructuring assignment of the source.
\<close>

fun shuffleFrom :: "nat \<Rightarrow> tile list \<times> Game \<Rightarrow> tile list \<times> Game" where
  "shuffleFrom 0 (tiles, g) = (tiles, g)"
| "shuffleFrom (Suc n) (tiles, g) =
     (case mathRandom g of (r, g') \<Rightarrow>
        let i = Suc n;
            j = nat \<lfloor>r * real (i + 1)\<rfloor>
        in shuffleFrom n (tiles[i := tiles ! j, j := tiles ! i], g'))"

fun removeTiles :: "TerritoryMap \<Rightarrow> tile \<Rightarrow> int \<Rightarrow> int \<Rightarrow> tile list \<Rightarrow> TerritoryMap" where
  "removeTiles t playerTile tilesToRemove removed [] = t"
| "removeTiles t playerTile tilesToRemove removed (p # rest) =
     (if removed \<ge> tilesToRemove then t
      else if fst p = fst playerTile \<and> snd p = snd playerTile
      then removeTiles t playerTile tilesToRemove removed rest
      else removeTiles (setOwner t (fst p) (snd p) 0) playerTile tilesToRemove (removed + 1) rest)"

definition shrinkTerritory :: "Game \<Rightarrow> int \<Rightarrow> int \<Rightarrow> Game" where
  "shrinkTerritory g playerId tilesToRemove =
     (let borderTiles = getBorderTiles (territoryMap g) playerId
      in if length borderTiles = 0 then g
         else
           let playerTile = (case List.find (\<lambda>p. ident p = playerId) (allPlayers g) of
                               None \<Rightarrow> (- 1, - 1)
                             | Some player \<Rightarrow> worldToTile (territoryMap g) (pos player))
           in case shuffleFrom (length borderTiles - 1) (borderTiles, g) of
                (shuffled, g') \<Rightarrow>
                  g'\<lparr>territoryMap :=
                       removeTiles (territoryMap g') playerTile tilesToRemove 0 shuffled\<rparr>)"

text \<open>The body of the loop of \<^verbatim>\<open>updateCampingMechanic\<close>, for the player at index \<open>i\<close>.\<close>

definition campingStep :: "real \<Rightarrow> Game \<Rightarrow> nat \<Rightarrow> Game" where
  "campingStep dt g i =
     (let player = allPlayers g ! i
      in if \<not> alive player
         then g\<lparr>campingTimers := AList.update (ident player) 0 (campingTimers g),
                shrinkAccumulators := AList.update (ident player) 0 (shrinkAccumulators g)\<rparr>
         else
           let playerId = ident player;
               campingTime = getOrZero (campingTimers g) playerId;
               shrinkAccum = getOrZero (shrinkAccumulators g) playerId;
               currentTile = worldToTile (territoryMap g) (pos player);
               isInOwnTerritory =
                 (getOwner (territoryMap g) (fst currentTile) (snd currentTile) = playerId);
               hasTail = (length (tail player) > 0)
           in case
                (if isInOwnTerritory \<and> \<not> hasTail
                 then
                   let campingTime' = campingTime + dt
                   in if campingTime' > shrink_campingThreshold
                      then
                        let shrinkAccum' = shrinkAccum + dt;
                            shrinkRate = (if difficulty g = Impossible then shrink_rate * 2
                                          else shrink_rate);
                            tilesToRemove = \<lfloor>shrinkAccum' * shrinkRate\<rfloor>
                        in if tilesToRemove > 0
                           then (campingTime',
                                 shrinkAccum' - real_of_int tilesToRemove / shrinkRate,
                                 shrinkTerritory g playerId tilesToRemove)
                           else (campingTime', shrinkAccum', g)
                      else (campingTime', shrinkAccum, g)
                 else
                   let campingTime' = max 0 (campingTime - dt)
                   in (campingTime',
                       if campingTime' \<le> shrink_campingThreshold then 0 else shrinkAccum, g))
              of (campingTime', shrinkAccum', g') \<Rightarrow>
                g'\<lparr>campingTimers := AList.update playerId campingTime' (campingTimers g'),
                    shrinkAccumulators := AList.update playerId shrinkAccum' (shrinkAccumulators g')\<rparr>)"

definition updateCampingMechanic :: "Game \<Rightarrow> real \<Rightarrow> Game" where
  "updateCampingMechanic g dt = foldl (campingStep dt) g [0 ..< length (allPlayers g)]"

subsection \<open>Orphan sweep\<close>

definition isPlayerOrEdge :: "TerritoryMap \<Rightarrow> int \<Rightarrow> int \<Rightarrow> int \<Rightarrow> int \<Rightarrow> bool" where
  "isPlayerOrEdge t width height tx ty \<longleftrightarrow>
     (if tx < 0 \<or> tx \<ge> width \<or> ty < 0 \<or> ty \<ge> height then True
      else getOwner t tx ty = 1)"

definition orphanStep :: "int \<Rightarrow> int \<Rightarrow> TerritoryMap \<Rightarrow> tile \<Rightarrow> TerritoryMap" where
  "orphanStep width height t p =
     (case p of (tx, ty) \<Rightarrow>
        if getOwner t tx ty = 0 \<and>
           isPlayerOrEdge t width height tx (ty - 1) \<and> isPlayerOrEdge t width height tx (ty + 1) \<and>
           isPlayerOrEdge t width height (tx - 1) ty \<and> isPlayerOrEdge t width height (tx + 1) ty
        then setOwner t tx ty 1
        else t)"

definition captureOrphanedTiles :: "Game \<Rightarrow> Game" where
  "captureOrphanedTiles g =
     (let counter = orphanCheckCounter g + 1;
          checkInterval = (if isMobile g then 360 else 180)
      in if counter < checkInterval then g\<lparr>orphanCheckCounter := counter\<rparr>
         else
           let g0 = g\<lparr>orphanCheckCounter := 0\<rparr>;
               playerPercent = getOwnershipPercentage (territoryMap g0) 1
           in if playerPercent < 10 then g0
              else
                let width = widthTiles (territoryMap g0);
                    height = heightTiles (territoryMap g0)
                in g0\<lparr>territoryMap :=
                        foldl (orphanStep width height) (territoryMap g0)
                              (allTiles (territoryMap g0))\<rparr>)"

text \<open>
  A game state around a given grid and list of players, every other field as the class
  initialises it; the clock and the random source are arbitrary inputs.
\<close>

definition gameWith ::
    "TerritoryMap \<Rightarrow> Player list \<Rightarrow> (nat \<Rightarrow> real) \<Rightarrow> (nat \<Rightarrow> real) \<Rightarrow> Game" where
  "gameWith t ps clock random =
     \<lparr>territoryMap = t, allPlayers = ps, wasInOwnTerritory = [], captureQueue = [],
      maxCaptureTimePerFrame = 4, isMobile = False, campingTimers = [],
      shrinkAccumulators = [], difficulty = Easy, boostEndTimes = [],
      boostNotifications = [], killEffects = [], orphanCheckCounter = 0,
      clockSource = clock, clockCalls = 0, randomSource = random, randomCalls = 0\<rparr>"

definition setOwners :: "TerritoryMap \<Rightarrow> tile list \<Rightarrow> int \<Rightarrow> TerritoryMap" where
  "setOwners t ps ownerId = foldl (\<lambda>t' p. setOwner t' (fst p) (snd p) ownerId) t ps"

text \<open>The sweep runs in the call that brings the counter to the check interval.\<close>

definition sweepDue :: "Game \<Rightarrow> bool" where
  "sweepDue g \<longleftrightarrow> orphanCheckCounter g + 1 \<ge> (if isMobile g then 360 else 180)"

text \<open>A neutral tile whose four neighbours are each owned by owner 1 or outside the grid.\<close>

definition orphaned :: "TerritoryMap \<Rightarrow> int \<Rightarrow> int \<Rightarrow> bool" where
  "orphaned t tx ty \<longleftrightarrow>
     getOwner t tx ty = 0 \<and>
     isPlayerOrEdge t (widthTiles t) (heightTiles t) tx (ty - 1) \<and>
     isPlayerOrEdge t (widthTiles t) (heightTiles t) tx (ty + 1) \<and>
     isPlayerOrEdge t (widthTiles t) (heightTiles t) (tx - 1) ty \<and>
     isPlayerOrEdge t (widthTiles t) (heightTiles t) (tx + 1) ty"

definition ring3x3 :: TerritoryMap where
  "ring3x3 = setOwners (newTerritoryMap 3 3 4)
     [(0, 0), (1, 0), (2, 0), (0, 1), (2, 1), (0, 2), (1, 2), (2, 2)] 1"


text \<open>The notions the camping rule is stated with, for the player \<open>p\<close> in the state \<open>g\<close>.\<close>

definition insideOwnTerritory :: "Game \<Rightarrow> Player \<Rightarrow> bool" where
  "insideOwnTerritory g p \<longleftrightarrow>
     getOwner (territoryMap g) (fst (worldToTile (territoryMap g) (pos p)))
       (snd (worldToTile (territoryMap g) (pos p))) = ident p"

definition isCamping :: "Game \<Rightarrow> Player \<Rightarrow> bool" where
  "isCamping g p \<longleftrightarrow> alive p \<and> insideOwnTerritory g p \<and> tail p = []"

definition tilesDue :: "real \<Rightarrow> Game \<Rightarrow> Player \<Rightarrow> int" where
  "tilesDue dt g p =
     \<lfloor>(getOrZero (shrinkAccumulators g) (ident p) + dt) *
       (if difficulty g = Impossible then shrink_rate * 2 else shrink_rate)\<rfloor>"

text \<open>
  Scenes for the camping rule on a 3x3 grid with 4-pixel tiles: a player with the given id
  and liveness stands at the centre of the centre tile, has no tail and owns the given
  tiles; its camping timer starts at the given value.
\<close>

definition campGame :: "int \<Rightarrow> bool \<Rightarrow> tile list \<Rightarrow> real \<Rightarrow> Game" where
  "campGame k live owned timer =
     (gameWith (setOwners (newTerritoryMap 3 3 4) owned k)
        [\<lparr>ident = k, isBot = False, pos = (6, 6), dir = (1, 0), speed = 150, alive = live,
           angle = 0, targetAngle = 0, tail = [], isDrawingTail = False, lastTailPoint = None,
           kills = 0, timeAlive = 0\<rparr>]
        (\<lambda>n. 0) (\<lambda>n. 0))\<lparr>campingTimers := [(k, timer)]\<rparr>"











text \<open>The state differs from an earlier one by clock readings only.\<close>

definition clockAdvanced :: "Game \<Rightarrow> Game \<Rightarrow> bool" where
  "clockAdvanced g g' \<longleftrightarrow> g' = g\<lparr>clockCalls := clockCalls g'\<rparr> \<and> clockCalls g \<le> clockCalls g'"



subsection \<open>Capture (captureTerritoryFromTail, markThickLine)\<close>






















subsection \<open>Tail mechanics and the capture queue\<close>

















section \<open>Basic facts about the grid\<close>

lemma tileIndex_less:
  assumes "isValidTile t tx ty" "wellFormed t"
  shows "tileIndex t tx ty < length (ownerMap t)"
proof -
  from assms(1) have b: "0 \<le> tx" "tx < widthTiles t" "0 \<le> ty" "ty < heightTiles t"
    by (auto simp: isValidTile_def)
  have "ty * widthTiles t + tx < (ty + 1) * widthTiles t"
    using b by (simp add: algebra_simps)
  also have "\<dots> \<le> heightTiles t * widthTiles t"
    using b by (intro mult_right_mono) auto
  finally have "ty * widthTiles t + tx < widthTiles t * heightTiles t"
    by (simp add: mult.commute)
  moreover have "0 \<le> ty * widthTiles t + tx" using b by simp
  ultimately show ?thesis
    using assms(2) by (simp add: tileIndex_def wellFormed_def)
qed

lemma isValidTile_setOwner [simp]:
  "isValidTile (setOwner t a b v) tx ty = isValidTile t tx ty"
  by (simp add: setOwner_def isValidTile_def Let_def)

lemma tileIndex_setOwner [simp]:
  "tileIndex (setOwner t a b v) tx ty = tileIndex t tx ty"
  by (simp add: setOwner_def tileIndex_def Let_def)

lemma uint_word8: "uint (word_of_int k :: 8 word) = k mod 256"
  by (simp add: uint_word_of_int)

lemma uint_word8_id: "0 \<le> k \<Longrightarrow> k \<le> 255 \<Longrightarrow> uint (word_of_int k :: 8 word) = k"
  by (simp add: uint_word8)

lemma uint8_range: "0 \<le> uint (c :: 8 word) \<and> uint c \<le> 255"
  using uint_bounded [of c] by simp

lemma widthTiles_setOwner [simp]: "widthTiles (setOwner t a b v) = widthTiles t"
  by (simp add: setOwner_def Let_def)

lemma heightTiles_setOwner [simp]: "heightTiles (setOwner t a b v) = heightTiles t"
  by (simp add: setOwner_def Let_def)

lemma tileSize_setOwner [simp]: "tileSize (setOwner t a b v) = tileSize t"
  by (simp add: setOwner_def Let_def)

lemma ownerMap_setOwner:
  "ownerMap (setOwner t tx ty v) =
     (if isValidTile t tx ty then (ownerMap t)[tileIndex t tx ty := word_of_int v]
      else ownerMap t)"
proof (cases "isValidTile t tx ty \<and> uint (ownerMap t ! tileIndex t tx ty) = v")
  case True
  then have "word_of_int v = ownerMap t ! tileIndex t tx ty" by auto
  with True show ?thesis by (simp add: setOwner_def)
next
  case False
  then show ?thesis by (auto simp: setOwner_def Let_def)
qed

lemma wellFormed_setOwner [simp]: "wellFormed (setOwner t a b v) = wellFormed t"
  by (simp add: wellFormed_def ownerMap_setOwner)

lemma getOwner_setOwner_same:
  assumes "isValidTile t tx ty" "wellFormed t"
  shows "getOwner (setOwner t tx ty v) tx ty = v mod 256"
  using assms tileIndex_less [OF assms]
  by (simp add: getOwner_def ownerMap_setOwner uint_word8)

lemma getOr_update_same: "getOr (AList.update k v c) k d = (if v = 0 then d else v)"
  by (simp add: getOr_def update_conv')

lemma getOr_update_other: "k' \<noteq> k \<Longrightarrow> getOr (AList.update k v c) k' d = getOr c k' d"
  by (simp add: getOr_def update_conv')

lemma rescanCount_big: "256 \<le> k \<Longrightarrow> rescanCount t k = 0"
proof -
  assume k: "256 \<le> k"
  have "uint c \<noteq> k" for c :: "8 word"
    using uint8_range [of c] k by linarith
  then show ?thesis by (simp add: rescanCount_def)
qed

lemma rescanCount_nonneg: "0 \<le> rescanCount t k"
  by (simp add: rescanCount_def)

lemma countOwnedTiles_setOwner_big:
  assumes "isValidTile t tx ty" "256 \<le> v"
  shows "countOwnedTiles (setOwner t tx ty v) v = countOwnedTiles t v + 1"
proof -
  let ?old = "uint (ownerMap t ! tileIndex t tx ty)"
  have ne: "?old \<noteq> v" using uint8_range [of "ownerMap t ! tileIndex t tx ty"] assms(2) by linarith
  have nz: "getOr c v 0 + 1 \<noteq> 0 \<or> getOr c v 0 = - 1" for c by simp
  show ?thesis
    using assms ne
    by (auto simp: countOwnedTiles_def setOwner_def Let_def getOr_update_same getOr_update_other)
qed

section \<open>Out-of-bounds access\<close>

text \<open>
  C8. A query of a tile outside the grid answers the sentinel \<open>-1\<close> (it is a value, no
  exception is modelled or needed), and a write outside the grid changes nothing: the
  cells, the cached counts and every other field stay as they were.
\<close>

theorem out_of_bounds_sentinel_and_noop:
  "\<not> isValidTile t tileX tileY \<Longrightarrow>
     getOwner t tileX tileY = - 1 \<and> setOwner t tileX tileY ownerId = t"
  by (simp add: getOwner_def setOwner_def)

theorem out_of_bounds_sentinel_and_noop_witness:
  "\<not> isValidTile (newTerritoryMap 3 3 4) 3 (- 1) \<and>
   getOwner (newTerritoryMap 3 3 4) 3 (- 1) = - 1 \<and>
   setOwner (newTerritoryMap 3 3 4) 3 (- 1) 7 = newTerritoryMap 3 3 4"
proof -
  have h: "\<not> isValidTile (newTerritoryMap 3 3 4) 3 (- 1)"
    by (simp add: isValidTile_def newTerritoryMap_def)
  show ?thesis
    using h out_of_bounds_sentinel_and_noop [OF h, of 7] by simp
qed

section \<open>Owner ids beyond one byte\<close>

text \<open>
  C10. The cells are bytes. On a tile of the grid, \<^verbatim>\<open>setOwner\<close> with an id of 256 or more
  stores the id modulo 256, which is what \<^verbatim>\<open>getOwner\<close> then returns, while the cached
  count is incremented under the full id; no cell can ever hold that id, so a rescan for it
  counts 0 tiles and a cache that agreed with the rescan before the call disagrees after it.
  With an id in \<open>0..255\<close> the stored id is the given one.
\<close>

theorem setOwner_stores_low_byte:
  assumes "isValidTile t tx ty" "wellFormed t"
  shows "(256 \<le> v \<longrightarrow>
            getOwner (setOwner t tx ty v) tx ty = v mod 256 \<and>
            countOwnedTiles (setOwner t tx ty v) v = countOwnedTiles t v + 1 \<and>
            rescanCount (setOwner t tx ty v) v = 0 \<and>
            (countOwnedTiles t v = rescanCount t v \<longrightarrow>
               countOwnedTiles (setOwner t tx ty v) v \<noteq> rescanCount (setOwner t tx ty v) v)) \<and>
         (0 \<le> v \<and> v \<le> 255 \<longrightarrow> getOwner (setOwner t tx ty v) tx ty = v)"
proof -
  have g: "getOwner (setOwner t tx ty v) tx ty = v mod 256"
    by (rule getOwner_setOwner_same [OF assms])
  have c: "countOwnedTiles (setOwner t tx ty v) v = countOwnedTiles t v + 1" if "256 \<le> v"
    by (rule countOwnedTiles_setOwner_big [OF assms(1) that])
  show ?thesis using g c by (auto simp: rescanCount_big)
qed

theorem setOwner_stores_low_byte_witness:
  "isValidTile (newTerritoryMap 2 1 4) 1 0 \<and> wellFormed (newTerritoryMap 2 1 4) \<and>
   getOwner (setOwner (newTerritoryMap 2 1 4) 1 0 257) 1 0 = 1 \<and>
   countOwnedTiles (setOwner (newTerritoryMap 2 1 4) 1 0 257) 257 = 1 \<and>
   rescanCount (setOwner (newTerritoryMap 2 1 4) 1 0 257) 257 = 0 \<and>
   countOwnedTiles (setOwner (newTerritoryMap 2 1 4) 1 0 257) 1 = 0 \<and>
   rescanCount (setOwner (newTerritoryMap 2 1 4) 1 0 257) 1 = 1 \<and>
   getOwner (setOwner (newTerritoryMap 2 1 4) 1 0 255) 1 0 = 255"
proof -
  have v: "isValidTile (newTerritoryMap 2 1 4) 1 0"
    by (simp add: isValidTile_def newTerritoryMap_def)
  have w: "wellFormed (newTerritoryMap 2 1 4)"
    by (simp add: wellFormed_def newTerritoryMap_def)
  have c0: "countOwnedTiles (newTerritoryMap 2 1 4) 257 = 0"
    by (simp add: countOwnedTiles_def newTerritoryMap_def getOr_def)
  have extra: "countOwnedTiles (setOwner (newTerritoryMap 2 1 4) 1 0 257) 1 = 0 \<and>
     rescanCount (setOwner (newTerritoryMap 2 1 4) 1 0 257) 1 = 1"
    by code_simp
  show ?thesis
    using setOwner_stores_low_byte [OF v w, of 257] setOwner_stores_low_byte [OF v w, of 255]
      v w c0 extra
    by simp
qed

section \<open>The cached counts\<close>

lemma filter_length_update:
  "i < length xs \<Longrightarrow>
     int (length (filter P (xs[i := v]))) =
       int (length (filter P xs)) - (if P (xs ! i) then 1 else 0) + (if P v then 1 else 0)"
proof (induction xs arbitrary: i)
  case Nil
  then show ?case by simp
next
  case (Cons x xs)
  show ?case
  proof (cases i)
    case 0
    then show ?thesis by simp
  next
    case (Suc j)
    with Cons.prems have "j < length xs" by simp
    from Cons.IH [OF this] Suc show ?thesis by (auto split: if_splits)
  qed
qed

lemma filter_pos_if_member:
  "i < length xs \<Longrightarrow> P (xs ! i) \<Longrightarrow> 0 < length (filter P xs)"
  by (metis filter_empty_conv length_greater_0_conv nth_mem)

lemma rescanCount_setOwner:
  assumes "isValidTile t tx ty" "wellFormed t" "0 \<le> v" "v \<le> 255"
  shows "rescanCount (setOwner t tx ty v) k =
           rescanCount t k - (if uint (ownerMap t ! tileIndex t tx ty) = k then 1 else 0)
             + (if v = k then 1 else 0)"
  using assms tileIndex_less [OF assms(1,2)]
  by (simp add: rescanCount_def ownerMap_setOwner filter_length_update uint_word8_id)

lemma getOr_default: "getOr c k 0 \<noteq> 0 \<Longrightarrow> getOr c k d = getOr c k 0"
  by (auto simp: getOr_def split: option.splits)

lemma tileCounts_setOwner:
  assumes "isValidTile t tx ty" "uint (ownerMap t ! tileIndex t tx ty) \<noteq> v"
  shows "tileCounts (setOwner t tx ty v) =
     (let old = uint (ownerMap t ! tileIndex t tx ty);
          c1 = (if old > 0 then AList.update old (getOr (tileCounts t) old 1 - 1) (tileCounts t)
                else tileCounts t)
      in if v > 0 then AList.update v (getOr c1 v 0 + 1) c1 else c1)"
  using assms by (simp add: setOwner_def Let_def)

lemma countOwnedTiles_update:
  "getOr (AList.update k v c) k' 0 = (if k' = k then v else getOr c k' 0)"
  by (auto simp: getOr_update_same getOr_update_other)

lemma cacheCorrect_setOwner:
  assumes inv: "cacheInvariant t" and v: "0 \<le> v" "v \<le> 255"
  shows "cacheCorrect (setOwner t tx ty v)"
proof (cases "isValidTile t tx ty \<and> uint (ownerMap t ! tileIndex t tx ty) \<noteq> v")
  case False
  then have "setOwner t tx ty v = t" by (auto simp: setOwner_def)
  with inv show ?thesis by (simp add: cacheInvariant_def)
next
  case True
  let ?old = "uint (ownerMap t ! tileIndex t tx ty)"
  from inv have wf: "wellFormed t" and cc: "cacheCorrect t" by (auto simp: cacheInvariant_def)
  from True have valid: "isValidTile t tx ty" and ne: "?old \<noteq> v" by auto
  have idx: "tileIndex t tx ty < length (ownerMap t)" by (rule tileIndex_less [OF valid wf])
  have old_range: "0 \<le> ?old" "?old \<le> 255" using uint8_range by auto
  have old_count: "getOr (tileCounts t) ?old 1 = rescanCount t ?old" if "0 < ?old"
  proof -
    from that old_range have vo: "validOwner ?old" by (simp add: validOwner_def)
    have "0 < rescanCount t ?old"
      using filter_pos_if_member [OF idx, of "\<lambda>c. uint c = ?old"] by (simp add: rescanCount_def)
    moreover have "getOr (tileCounts t) ?old 0 = rescanCount t ?old"
      using cc vo by (simp add: cacheCorrect_def countOwnedTiles_def)
    ultimately show ?thesis using getOr_default [of "tileCounts t" ?old 1] by simp
  qed
  show ?thesis
    unfolding cacheCorrect_def
  proof (intro allI impI)
    fix k assume k: "validOwner k"
    have ck: "getOr (tileCounts t) k 0 = rescanCount t k"
      using cc k by (simp add: cacheCorrect_def countOwnedTiles_def)
    have r: "rescanCount (setOwner t tx ty v) k =
           rescanCount t k - (if ?old = k then 1 else 0) + (if v = k then 1 else 0)"
      by (rule rescanCount_setOwner [OF valid wf v])
    have "countOwnedTiles (setOwner t tx ty v) k =
           rescanCount t k - (if ?old = k then 1 else 0) + (if v = k then 1 else 0)"
      using k ne old_count ck
      by (auto simp: countOwnedTiles_def tileCounts_setOwner [OF valid ne] Let_def
            countOwnedTiles_update validOwner_def)
    with r show "countOwnedTiles (setOwner t tx ty v) k = rescanCount (setOwner t tx ty v) k"
      by simp
  qed
qed

lemma keysValid_update: "keysValid (AList.update k v c) \<longleftrightarrow> validOwner k \<and> keysValid c"
  by (simp add: keysValid_def dom_update)

lemma cacheInvariant_setOwner:
  assumes inv: "cacheInvariant t" and v: "0 \<le> v" "v \<le> 255"
  shows "cacheInvariant (setOwner t tx ty v)"
proof (cases "isValidTile t tx ty \<and> uint (ownerMap t ! tileIndex t tx ty) \<noteq> v")
  case False
  then have "setOwner t tx ty v = t" by (auto simp: setOwner_def)
  with inv show ?thesis by simp
next
  case True
  let ?old = "uint (ownerMap t ! tileIndex t tx ty)"
  from True have valid: "isValidTile t tx ty" and ne: "?old \<noteq> v" by auto
  have old_range: "0 < ?old \<Longrightarrow> validOwner ?old"
    using uint8_range [of "ownerMap t ! tileIndex t tx ty"] by (simp add: validOwner_def)
  have vv: "0 < v \<Longrightarrow> validOwner v" using v by (simp add: validOwner_def)
  have "distinct (map fst (tileCounts (setOwner t tx ty v)))"
    using inv by (simp add: tileCounts_setOwner [OF valid ne] Let_def distinct_update cacheInvariant_def)
  moreover have "keysValid (tileCounts (setOwner t tx ty v))"
    using inv old_range vv
    by (simp add: tileCounts_setOwner [OF valid ne] Let_def keysValid_update cacheInvariant_def)
  ultimately show ?thesis
    using inv cacheCorrect_setOwner [OF inv v] by (simp add: cacheInvariant_def)
qed

lemma count_replace_from:
  fixes xs :: "8 word list"
  assumes "uint w \<noteq> a"
  shows "filter (\<lambda>c. uint c = a) (map (\<lambda>c. if uint c = a then w else c) xs) = []"
  using assms by (induction xs) auto

lemma count_replace_to:
  fixes xs :: "8 word list"
  assumes "uint w \<noteq> a"
  shows "length (filter (\<lambda>c. uint c = uint w) (map (\<lambda>c. if uint c = a then w else c) xs)) =
         length (filter (\<lambda>c. uint c = uint w) xs) + length (filter (\<lambda>c. uint c = a) xs)"
  using assms by (induction xs) auto

lemma count_replace_other:
  fixes xs :: "8 word list"
  assumes "k \<noteq> a" "k \<noteq> uint w"
  shows "length (filter (\<lambda>c. uint c = k) (map (\<lambda>c. if uint c = a then w else c) xs)) =
         length (filter (\<lambda>c. uint c = k) xs)"
  using assms by (induction xs) auto

lemma rescanCount_transferTerritory:
  assumes "0 \<le> b" "b \<le> 255" "a \<noteq> b"
  shows "rescanCount (transferTerritory t a b) k =
         (if k = a then 0 else if k = b then rescanCount t b + rescanCount t a
          else rescanCount t k)"
proof -
  have w: "uint (word_of_int b :: 8 word) = b" using assms by (simp add: uint_word8_id)
  then have ne: "uint (word_of_int b :: 8 word) \<noteq> a" using assms by simp
  show ?thesis
    using count_replace_from [OF ne, of "ownerMap t"] count_replace_to [OF ne, of "ownerMap t"]
      count_replace_other [of k a "word_of_int b" "ownerMap t"] w assms(3)
    by (auto simp: rescanCount_def transferTerritory_def Let_def)
qed

lemma rescanCount_clearOwnerTerritory:
  assumes "a \<noteq> 0" "k \<noteq> 0"
  shows "rescanCount (clearOwnerTerritory t a) k = (if k = a then 0 else rescanCount t k)"
proof -
  have ne: "uint (0 :: 8 word) \<noteq> a" using assms by simp
  show ?thesis
    using count_replace_from [OF ne, of "ownerMap t"]
      count_replace_other [of k a 0 "ownerMap t"] assms
    by (simp add: rescanCount_def clearOwnerTerritory_def)
qed

lemma cacheInvariant_transferTerritory:
  assumes inv: "cacheInvariant t" and ab: "validOwner a" "validOwner b" "a \<noteq> b"
  shows "cacheInvariant (transferTerritory t a b)"
proof -
  from ab have b: "0 \<le> b" "b \<le> 255" by (auto simp: validOwner_def)
  have cc: "getOr (tileCounts t) k 0 = rescanCount t k" if "validOwner k" for k
    using inv that by (simp add: cacheInvariant_def cacheCorrect_def countOwnedTiles_def)
  have "cacheCorrect (transferTerritory t a b)"
    unfolding cacheCorrect_def
  proof (intro allI impI)
    fix k assume k: "validOwner k"
    have "countOwnedTiles (transferTerritory t a b) k =
         (if k = a then 0 else if k = b then rescanCount t b + rescanCount t a
          else rescanCount t k)"
      using cc [OF k] cc [OF ab(1)] cc [OF ab(2)] ab(3)
      by (simp add: countOwnedTiles_def transferTerritory_def Let_def countOwnedTiles_update)
    then show "countOwnedTiles (transferTerritory t a b) k = rescanCount (transferTerritory t a b) k"
      by (simp add: rescanCount_transferTerritory [OF b ab(3)])
  qed
  moreover have "wellFormed (transferTerritory t a b)"
    using inv by (simp add: cacheInvariant_def wellFormed_def transferTerritory_def Let_def)
  moreover have "distinct (map fst (tileCounts (transferTerritory t a b)))"
    using inv by (simp add: cacheInvariant_def transferTerritory_def Let_def distinct_update)
  moreover have "keysValid (tileCounts (transferTerritory t a b))"
    using inv ab by (simp add: cacheInvariant_def transferTerritory_def Let_def keysValid_update)
  moreover have "widthTiles (transferTerritory t a b) = widthTiles t"
    "heightTiles (transferTerritory t a b) = heightTiles t"
    by (simp_all add: transferTerritory_def Let_def)
  ultimately show ?thesis using inv by (simp add: cacheInvariant_def)
qed

lemma cacheInvariant_clearOwnerTerritory:
  assumes inv: "cacheInvariant t" and a: "validOwner a"
  shows "cacheInvariant (clearOwnerTerritory t a)"
proof -
  from a have a0: "a \<noteq> 0" by (auto simp: validOwner_def)
  have cc: "getOr (tileCounts t) k 0 = rescanCount t k" if "validOwner k" for k
    using inv that by (simp add: cacheInvariant_def cacheCorrect_def countOwnedTiles_def)
  have "cacheCorrect (clearOwnerTerritory t a)"
    unfolding cacheCorrect_def
  proof (intro allI impI)
    fix k assume k: "validOwner k"
    then have k0: "k \<noteq> 0" by (auto simp: validOwner_def)
    have "countOwnedTiles (clearOwnerTerritory t a) k = (if k = a then 0 else rescanCount t k)"
      using cc [OF k] by (simp add: countOwnedTiles_def clearOwnerTerritory_def countOwnedTiles_update)
    then show "countOwnedTiles (clearOwnerTerritory t a) k = rescanCount (clearOwnerTerritory t a) k"
      by (simp add: rescanCount_clearOwnerTerritory [OF a0 k0])
  qed
  moreover have "wellFormed (clearOwnerTerritory t a)"
    using inv by (simp add: cacheInvariant_def wellFormed_def clearOwnerTerritory_def)
  moreover have "distinct (map fst (tileCounts (clearOwnerTerritory t a)))"
    using inv by (simp add: cacheInvariant_def clearOwnerTerritory_def distinct_update)
  moreover have "keysValid (tileCounts (clearOwnerTerritory t a))"
    using inv a by (simp add: cacheInvariant_def clearOwnerTerritory_def keysValid_update)
  moreover have "widthTiles (clearOwnerTerritory t a) = widthTiles t"
    "heightTiles (clearOwnerTerritory t a) = heightTiles t"
    by (simp_all add: clearOwnerTerritory_def)
  ultimately show ?thesis using inv by (simp add: cacheInvariant_def)
qed

lemma cacheInvariant_new:
  "0 \<le> w \<Longrightarrow> 0 \<le> h \<Longrightarrow> cacheInvariant (newTerritoryMap w h ts)"
  by (auto simp: cacheInvariant_def newTerritoryMap_def wellFormed_def cacheCorrect_def
        countOwnedTiles_def getOr_def rescanCount_def keysValid_def validOwner_def)

lemma cacheInvariant_applyMutation:
  "cacheInvariant t \<Longrightarrow> properMutation m \<Longrightarrow> cacheInvariant (applyMutation t m)"
  by (cases m)
    (simp_all add: cacheInvariant_setOwner cacheInvariant_transferTerritory
      cacheInvariant_clearOwnerTerritory)

lemma cacheInvariant_applyMutations:
  "cacheInvariant t \<Longrightarrow> \<forall>m \<in> set ms. properMutation m \<Longrightarrow>
     cacheInvariant (applyMutations t ms)"
  unfolding applyMutations_def
  by (induction ms arbitrary: t) (simp_all add: cacheInvariant_applyMutation)

lemma indicator_sum_absent:
  "a \<notin> set ks \<Longrightarrow> (\<Sum>k\<leftarrow>ks. if a = k then 1 else 0) = (0 :: int)"
  by (induction ks) auto

lemma indicator_sum_distinct:
  "distinct ks \<Longrightarrow> (\<Sum>k\<leftarrow>ks. if a = k then 1 else 0) \<le> (1 :: int)"
  by (induction ks) (auto simp: indicator_sum_absent)

lemma sum_filter_counts_le:
  "distinct ks \<Longrightarrow>
     (\<Sum>k\<leftarrow>ks. int (length (filter (\<lambda>c. f c = k) xs))) \<le> int (length xs)"
proof (induction xs)
  case Nil
  then show ?case by simp
next
  case (Cons x xs)
  have "(\<Sum>k\<leftarrow>ks. int (length (filter (\<lambda>c. f c = k) (x # xs)))) =
        (\<Sum>k\<leftarrow>ks. (if f x = k then 1 else 0) + int (length (filter (\<lambda>c. f c = k) xs)))"
    by (intro arg_cong [where f = sum_list] map_cong) auto
  also have "\<dots> = (\<Sum>k\<leftarrow>ks. if f x = k then 1 else 0) +
                   (\<Sum>k\<leftarrow>ks. int (length (filter (\<lambda>c. f c = k) xs)))"
    by (simp add: sum_list_addf)
  also have "\<dots> \<le> 1 + int (length xs)"
    using indicator_sum_distinct [OF Cons.prems, of "f x"] Cons.IH [OF Cons.prems]
    by linarith
  finally show ?case by simp
qed

lemma sumCounts_le_total:
  assumes inv: "cacheInvariant t"
  shows "sumCounts t \<le> getTotalTiles t"
proof -
  let ?c = "tileCounts t"
  from inv have d: "distinct (map fst ?c)" by (simp add: cacheInvariant_def)
  have val: "snd p = rescanCount t (fst p)" if "p \<in> set ?c" for p
  proof -
    from that inv have vk: "validOwner (fst p)" by (auto simp: cacheInvariant_def keysValid_def)
    from d that have "map_of ?c (fst p) = Some (snd p)" by simp
    then have "getOr ?c (fst p) 0 = snd p" by (simp add: getOr_def)
    with inv vk show ?thesis by (simp add: cacheInvariant_def cacheCorrect_def countOwnedTiles_def)
  qed
  have "sumCounts t = (\<Sum>k\<leftarrow>map fst ?c. rescanCount t k)"
    unfolding sumCounts_def
    by (simp add: comp_def val cong: map_cong)
  also have "\<dots> \<le> int (length (ownerMap t))"
    using sum_filter_counts_le [OF d, of uint "ownerMap t"] by (simp add: rescanCount_def)
  also have "\<dots> = getTotalTiles t"
    using inv by (simp add: cacheInvariant_def wellFormed_def getTotalTiles_def)
  finally show ?thesis .
qed

text \<open>
  C3 (as amended). Starting from a freshly constructed grid, after every sequence of
  \<^verbatim>\<open>setOwner\<close> (ids \<open>0..255\<close>), \<^verbatim>\<open>transferTerritory\<close> (ids \<open>1..255\<close>, from and to
  different) and \<^verbatim>\<open>clearOwnerTerritory\<close> (ids \<open>1..255\<close>) calls, the cached counts sum to
  at most the number of tiles and the cached count of every owner \<open>1..255\<close> equals the
  count of a full rescan.
\<close>

theorem cache_correct_after_mutations:
  assumes "0 \<le> w" "0 \<le> h" "\<forall>m \<in> set ms. properMutation m"
  shows "sumCounts (applyMutations (newTerritoryMap w h ts) ms)
           \<le> getTotalTiles (applyMutations (newTerritoryMap w h ts) ms) \<and>
         (\<forall>k. validOwner k \<longrightarrow>
            countOwnedTiles (applyMutations (newTerritoryMap w h ts) ms) k =
            rescanCount (applyMutations (newTerritoryMap w h ts) ms) k)"
proof -
  have "cacheInvariant (applyMutations (newTerritoryMap w h ts) ms)"
    using assms by (intro cacheInvariant_applyMutations cacheInvariant_new)
  then show ?thesis
    using sumCounts_le_total by (auto simp: cacheInvariant_def cacheCorrect_def)
qed

theorem cache_correct_after_mutations_witness:
  "sumCounts (applyMutations (newTerritoryMap 2 1 4)
       [SetOwner 0 0 1, SetOwner 1 0 2, TransferTerritory 1 2, ClearOwnerTerritory 1, SetOwner 0 0 3])
     \<le> getTotalTiles (applyMutations (newTerritoryMap 2 1 4)
       [SetOwner 0 0 1, SetOwner 1 0 2, TransferTerritory 1 2, ClearOwnerTerritory 1, SetOwner 0 0 3]) \<and>
   countOwnedTiles (applyMutations (newTerritoryMap 2 1 4)
       [SetOwner 0 0 1, SetOwner 1 0 2, TransferTerritory 1 2, ClearOwnerTerritory 1, SetOwner 0 0 3]) 2
     = rescanCount (applyMutations (newTerritoryMap 2 1 4)
       [SetOwner 0 0 1, SetOwner 1 0 2, TransferTerritory 1 2, ClearOwnerTerritory 1, SetOwner 0 0 3]) 2"
proof -
  have h: "\<forall>m \<in> set [SetOwner 0 0 1, SetOwner 1 0 2, TransferTerritory 1 2,
             ClearOwnerTerritory 1, SetOwner 0 0 3]. properMutation m"
    by (simp add: validOwner_def)
  have v: "validOwner 2" by (simp add: validOwner_def)
  show ?thesis
    using cache_correct_after_mutations [of 2 1, OF _ _ h, of 4] v by simp
qed

text \<open>
  The claim as first stated allows a transfer from an owner to itself. That call leaves the
  cells alone and sets the owner's cached count to 0: on a one-tile grid owned by owner 1,
  the cache then says 0 and the rescan says 1.
\<close>

theorem cache_transfer_self_counterexample:
  "idsInRange (SetOwner 0 0 1) \<and> idsInRange (TransferTerritory 1 1) \<and> validOwner 1 \<and>
   countOwnedTiles (applyMutations (newTerritoryMap 1 1 4)
       [SetOwner 0 0 1, TransferTerritory 1 1]) 1 = 0 \<and>
   rescanCount (applyMutations (newTerritoryMap 1 1 4)
       [SetOwner 0 0 1, TransferTerritory 1 1]) 1 = 1"
  by (simp add: validOwner_def applyMutations_def newTerritoryMap_def setOwner_def
      isValidTile_def tileIndex_def transferTerritory_def countOwnedTiles_def rescanCount_def
      getOr_def Let_def)

section \<open>Transfer there and back\<close>

text \<open>
  C2 (as amended). When \<open>B\<close> is an id a cell can hold (\<open>0..255\<close>) and no tile belongs to
  \<open>B\<close> beforehand, \<^verbatim>\<open>transferTerritory(A,B)\<close> followed by \<^verbatim>\<open>transferTerritory(B,A)\<close>
  restores the tile set of \<open>A\<close> exactly; indeed the whole grid is as before.
\<close>

theorem transfer_round_trip:
  assumes "0 \<le> b" "b \<le> 255" "rescanCount t b = 0"
  shows "ownedTiles (transferTerritory (transferTerritory t a b) b a) a = ownedTiles t a \<and>
         ownerMap (transferTerritory (transferTerritory t a b) b a) = ownerMap t"
proof -
  have nb: "uint c \<noteq> b" if "c \<in> set (ownerMap t)" for c
    using assms(3) that by (simp add: rescanCount_def filter_empty_conv)
  have wb: "uint (word_of_int b :: 8 word) = b" using assms by (simp add: uint_word8_id)
  have "(if uint (if uint c = a then word_of_int b else c) = b then word_of_int a
         else (if uint c = a then word_of_int b else c)) = c"
    if "c \<in> set (ownerMap t)" for c :: "8 word"
    using nb [OF that] wb by auto
  then have "map (\<lambda>c. if uint c = b then word_of_int a else c)
               (map (\<lambda>c. if uint c = a then word_of_int b else c) (ownerMap t)) = ownerMap t"
    by (simp add: map_idI)
  then have m: "ownerMap (transferTerritory (transferTerritory t a b) b a) = ownerMap t"
    by (simp add: transferTerritory_def Let_def)
  then show ?thesis by (simp add: ownedTiles_def)
qed

theorem transfer_round_trip_witness:
  "rescanCount (setOwner (newTerritoryMap 2 1 4) 0 0 1) 2 = 0 \<and>
   ownedTiles (setOwner (newTerritoryMap 2 1 4) 0 0 1) 1 = [0] \<and>
   ownedTiles (transferTerritory (transferTerritory (setOwner (newTerritoryMap 2 1 4) 0 0 1) 1 2) 2 1) 1
     = [0]"
proof -
  have h: "rescanCount (setOwner (newTerritoryMap 2 1 4) 0 0 1) 2 = 0"
    by code_simp
  have o: "ownedTiles (setOwner (newTerritoryMap 2 1 4) 0 0 1) 1 = [0]"
    by code_simp
  show ?thesis
    using transfer_round_trip [OF _ _ h, of 1] h o by simp
qed

text \<open>
  Without the condition on \<open>B\<close> the round trip merges the two territories: on a grid of two
  tiles, the first of owner 1 and the second of owner 2, owner 1 ends with both.
\<close>

theorem transfer_round_trip_counterexample:
  "ownedTiles (setOwner (setOwner (newTerritoryMap 2 1 4) 0 0 1) 1 0 2) 1 = [0] \<and>
   ownedTiles (transferTerritory (transferTerritory
       (setOwner (setOwner (newTerritoryMap 2 1 4) 0 0 1) 1 0 2) 1 2) 2 1) 1 = [0, 1]"
  by (simp add: newTerritoryMap_def setOwner_def isValidTile_def tileIndex_def ownedTiles_def
      transferTerritory_def Let_def upt_rec)

section \<open>Walls\<close>

lemma clamp_inside:
  fixes v :: real
  assumes "lo \<le> hi"
  shows "\<not> max lo (min hi v) < lo" "\<not> max lo (min hi v) > hi"
  using assms by auto

text \<open>
  C9. \<^verbatim>\<open>Player.update\<close> clamps the new position of a live player into
  \<open>[2, arenaWidthPx - 2] \<times> [2, arenaHeightPx - 2]\<close>, and the wall check compares with the
  same margin 2 by strict inequalities: right after an update that set the position, the
  wall-death condition is false.
\<close>

theorem update_never_hits_wall:
  "alive p \<Longrightarrow> \<not> hitsWall (Player_update p dt)"
proof -
  assume a: "alive p"
  have w: "(2 :: real) \<le> real_of_int arenaWidthPx - 2"
    and h: "(2 :: real) \<le> real_of_int arenaHeightPx - 2"
    by (simp_all add: arenaWidthPx_def arenaHeightPx_def arena_widthTiles_def
        arena_heightTiles_def config_tileSize_def)
  show ?thesis
    using a clamp_inside [OF w] clamp_inside [OF h]
    by (simp add: Player_update_def hitsWall_def Let_def)
qed


theorem update_never_hits_wall_witness:
  "alive \<lparr>ident = 1, isBot = False, pos = (1999, 1000), dir = (1, 0), speed = 150,
      alive = True, angle = 0, targetAngle = 0, tail = [], isDrawingTail = False,
      lastTailPoint = None, kills = 0, timeAlive = 0\<rparr> \<and>
   \<not> hitsWall (Player_update \<lparr>ident = 1, isBot = False, pos = (1999, 1000), dir = (1, 0),
      speed = 150, alive = True, angle = 0, targetAngle = 0, tail = [], isDrawingTail = False,
      lastTailPoint = None, kills = 0, timeAlive = 0\<rparr> (1 / 60)) \<and>
   pos (Player_update \<lparr>ident = 1, isBot = False, pos = (1999, 1000), dir = (1, 0),
      speed = 150, alive = True, angle = 0, targetAngle = 0, tail = [], isDrawingTail = False,
      lastTailPoint = None, kills = 0, timeAlive = 0\<rparr> (1 / 60)) = (1998, 1000)"
proof -
  let ?p = "\<lparr>ident = 1, isBot = False, pos = (1999, 1000), dir = (1, 0), speed = 150,
      alive = True, angle = 0, targetAngle = 0, tail = [], isDrawingTail = False,
      lastTailPoint = None, kills = 0, timeAlive = 0\<rparr>"
  have a: "alive ?p" by simp
  have w: "wrapUp (wrapDown 0) = 0"
    by (simp add: wrapDown.simps [of 0] wrapUp.simps [of 0])
  have "pos (Player_update ?p (1 / 60)) = (1998, 1000)"
    by (simp add: Player_update_def Let_def w player_turnSpeed_def arenaWidthPx_def
        arenaHeightPx_def arena_widthTiles_def arena_heightTiles_def config_tileSize_def)
  with a update_never_hits_wall [OF a, of "1 / 60"] show ?thesis by simp
qed

section \<open>Orphan sweep\<close>

lemma tileIndex_inj:
  assumes "isValidTile t a b" "isValidTile t x y" "tileIndex t a b = tileIndex t x y"
  shows "a = x \<and> b = y"
proof -
  let ?w = "widthTiles t"
  from assms(1,2) have r: "0 \<le> a" "a < ?w" "0 \<le> b" "0 \<le> x" "x < ?w" "0 \<le> y"
    by (auto simp: isValidTile_def)
  then have "0 \<le> b * ?w + a" "0 \<le> y * ?w + x" by simp_all
  with assms(3) have e: "b * ?w + a = y * ?w + x" by (simp add: tileIndex_def)
  have "(b * ?w + a) div ?w = b" "(y * ?w + x) div ?w = y"
    using r by simp_all
  with e have beq: "b = y" by simp
  with e show ?thesis by simp
qed

lemma getOwner_setOwner:
  assumes "wellFormed t"
  shows "getOwner (setOwner t a b v) tx ty =
           (if isValidTile t a b \<and> tx = a \<and> ty = b then v mod 256 else getOwner t tx ty)"
proof (cases "isValidTile t a b")
  case False
  then show ?thesis by (simp add: setOwner_def)
next
  case va: True
  show ?thesis
  proof (cases "tx = a \<and> ty = b")
    case True
    with va assms show ?thesis by (simp add: getOwner_setOwner_same)
  next
    case ne: False
    show ?thesis
    proof (cases "isValidTile t tx ty")
      case False
      then show ?thesis using ne by (auto simp: getOwner_def)
    next
      case True
      with va ne have "tileIndex t a b \<noteq> tileIndex t tx ty"
        using tileIndex_inj [of t a b tx ty] by auto
      with True va ne show ?thesis
        by (auto simp: getOwner_def ownerMap_setOwner)
    qed
  qed
qed

lemma orphanStep_shape [simp]:
  "widthTiles (orphanStep w h t p) = widthTiles t"
  "heightTiles (orphanStep w h t p) = heightTiles t"
  "wellFormed (orphanStep w h t p) = wellFormed t"
  by (simp_all add: orphanStep_def split: prod.splits)

lemma orphanStep_keeps_owner1:
  assumes "wellFormed t" "getOwner t tx ty = 1"
  shows "getOwner (orphanStep w h t p) tx ty = 1"
  using assms by (auto simp: orphanStep_def getOwner_setOwner split: prod.splits)

lemma orphanStep_other:
  assumes "wellFormed t" "p \<noteq> (tx, ty)"
  shows "getOwner (orphanStep w h t p) tx ty = getOwner t tx ty"
  using assms by (auto simp: orphanStep_def getOwner_setOwner split: prod.splits)

lemma isPlayerOrEdge_orphanStep:
  assumes "wellFormed t" "isPlayerOrEdge t w h tx ty"
  shows "isPlayerOrEdge (orphanStep w h t p) w h tx ty"
  using assms orphanStep_keeps_owner1 [OF assms(1), of tx ty w h p]
  by (auto simp: isPlayerOrEdge_def)

lemma sweep_shape [simp]:
  "widthTiles (foldl (orphanStep w h) t ps) = widthTiles t"
  "heightTiles (foldl (orphanStep w h) t ps) = heightTiles t"
  "wellFormed (foldl (orphanStep w h) t ps) = wellFormed t"
  by (induction ps arbitrary: t) simp_all

lemma sweep_keeps_owner1:
  "wellFormed t \<Longrightarrow> getOwner t tx ty = 1 \<Longrightarrow> getOwner (foldl (orphanStep w h) t ps) tx ty = 1"
  by (induction ps arbitrary: t) (simp_all add: orphanStep_keeps_owner1)

lemma orphanStep_annexes:
  assumes "wellFormed t" "isValidTile t tx ty" "orphaned t tx ty"
  shows "getOwner (orphanStep (widthTiles t) (heightTiles t) t (tx, ty)) tx ty = 1"
  using assms by (simp add: orphanStep_def orphaned_def getOwner_setOwner)

lemma orphaned_orphanStep:
  assumes "wellFormed t" "orphaned t tx ty" "p \<noteq> (tx, ty)"
  shows "orphaned (orphanStep (widthTiles t) (heightTiles t) t p) tx ty"
  using assms
  by (simp add: orphaned_def orphanStep_other isPlayerOrEdge_orphanStep)

lemma sweep_annexes:
  assumes "wellFormed t" "isValidTile t tx ty" "orphaned t tx ty" "(tx, ty) \<in> set ps"
    "w = widthTiles t" "h = heightTiles t"
  shows "getOwner (foldl (orphanStep w h) t ps) tx ty = 1"
  using assms
proof (induction ps arbitrary: t)
  case Nil
  then show ?case by simp
next
  case (Cons p ps)
  show ?case
  proof (cases "p = (tx, ty)")
    case True
    have "getOwner (orphanStep w h t p) tx ty = 1"
      using Cons.prems True by (simp add: orphanStep_annexes)
    then show ?thesis
      using Cons.prems(1) by (simp add: sweep_keeps_owner1)
  next
    case False
    have o: "orphaned (orphanStep w h t p) tx ty"
      using Cons.prems False by (simp add: orphaned_orphanStep)
    have v: "isValidTile (orphanStep w h t p) tx ty"
      using Cons.prems(2) by (simp add: isValidTile_def)
    have m: "(tx, ty) \<in> set ps" using Cons.prems(4) False by auto
    have "getOwner (foldl (orphanStep w h) (orphanStep w h t p) ps) tx ty = 1"
      by (rule Cons.IH [OF _ v o m]) (simp_all add: Cons.prems)
    then show ?thesis by simp
  qed
qed

lemma allTiles_complete:
  "isValidTile t tx ty \<Longrightarrow> (tx, ty) \<in> set (allTiles t)"
  by (force simp: allTiles_def isValidTile_def)

lemma captureOrphanedTiles_due:
  assumes "sweepDue g" "\<not> getOwnershipPercentage (territoryMap g) 1 < 10"
  shows "territoryMap (captureOrphanedTiles g) =
           foldl (orphanStep (widthTiles (territoryMap g)) (heightTiles (territoryMap g)))
                 (territoryMap g) (allTiles (territoryMap g))"
  using assms by (auto simp: captureOrphanedTiles_def sweepDue_def Let_def)


lemma ring3x3_facts:
  "wellFormed ring3x3" "isValidTile ring3x3 1 1" "orphaned ring3x3 1 1"
  "widthTiles ring3x3 = 3" "heightTiles ring3x3 = 3"
  "\<not> getOwnershipPercentage ring3x3 1 < 10"
  "countOwnedTiles (foldl (orphanStep 3 3) ring3x3 (allTiles ring3x3)) 1 = 9"
  by code_simp+

text \<open>
  C4 (as amended). In the call in which the sweep is due (the throttle counter reaches the
  interval): if owner 1 holds at least 10 percent of the grid, every neutral tile whose four
  neighbours are each owned by owner 1 or outside the grid is owned by owner 1 afterwards;
  and on the 3x3 grid whose 8 border tiles belong to owner 1, the centre tile becomes owner
  1's, which makes 100 percent.
\<close>

theorem orphan_sweep_annexes:
  assumes due: "sweepDue g"
  shows "(\<not> getOwnershipPercentage (territoryMap g) 1 < 10 \<and> wellFormed (territoryMap g) \<and>
          isValidTile (territoryMap g) tx ty \<and> orphaned (territoryMap g) tx ty \<longrightarrow>
            getOwner (territoryMap (captureOrphanedTiles g)) tx ty = 1) \<and>
         (territoryMap g = ring3x3 \<longrightarrow>
            getOwner (territoryMap (captureOrphanedTiles g)) 1 1 = 1 \<and>
            getOwnershipPercentage (territoryMap (captureOrphanedTiles g)) 1 = 100)"
proof (intro conjI impI)
  assume a: "\<not> getOwnershipPercentage (territoryMap g) 1 < 10 \<and> wellFormed (territoryMap g) \<and>
          isValidTile (territoryMap g) tx ty \<and> orphaned (territoryMap g) tx ty"
  let ?t = "territoryMap g"
  from a have p: "\<not> getOwnershipPercentage ?t 1 < 10" and w: "wellFormed ?t"
    and v: "isValidTile ?t tx ty" and o: "orphaned ?t tx ty" by blast+
  have "getOwner (foldl (orphanStep (widthTiles ?t) (heightTiles ?t)) ?t (allTiles ?t)) tx ty = 1"
    by (rule sweep_annexes [OF w v o allTiles_complete [OF v] refl refl])
  then show "getOwner (territoryMap (captureOrphanedTiles g)) tx ty = 1"
    by (simp only: captureOrphanedTiles_due [OF due p])
next
  assume r: "territoryMap g = ring3x3"
  have p: "\<not> getOwnershipPercentage (territoryMap g) 1 < 10"
    by (simp only: r ring3x3_facts(6) not_False_eq_True)
  have s: "territoryMap (captureOrphanedTiles g) = foldl (orphanStep 3 3) ring3x3 (allTiles ring3x3)"
    by (simp only: captureOrphanedTiles_due [OF due p] r ring3x3_facts(4,5))
  have "getOwner (foldl (orphanStep 3 3) ring3x3 (allTiles ring3x3)) 1 1 = 1"
    by (rule sweep_annexes [OF ring3x3_facts(1,2,3) allTiles_complete [OF ring3x3_facts(2)]])
       (simp_all only: ring3x3_facts(4,5))
  then show "getOwner (territoryMap (captureOrphanedTiles g)) 1 1 = 1"
    by (simp only: s)
  have tot: "getTotalTiles (foldl (orphanStep 3 3) ring3x3 (allTiles ring3x3)) = 9"
    by (simp add: getTotalTiles_def ring3x3_facts(4,5))
  show "getOwnershipPercentage (territoryMap (captureOrphanedTiles g)) 1 = 100"
    unfolding s getOwnershipPercentage_def tot ring3x3_facts(7) by simp
qed

theorem orphan_sweep_annexes_witness:
  "sweepDue ((gameWith ring3x3 [] (\<lambda>n. 0) (\<lambda>n. 0))\<lparr>orphanCheckCounter := 179\<rparr>) \<and>
   orphaned ring3x3 1 1 \<and>
   getOwner (territoryMap (captureOrphanedTiles
     ((gameWith ring3x3 [] (\<lambda>n. 0) (\<lambda>n. 0))\<lparr>orphanCheckCounter := 179\<rparr>))) 1 1 = 1 \<and>
   getOwnershipPercentage (territoryMap (captureOrphanedTiles
     ((gameWith ring3x3 [] (\<lambda>n. 0) (\<lambda>n. 0))\<lparr>orphanCheckCounter := 179\<rparr>))) 1 = 100"
proof -
  let ?g = "(gameWith ring3x3 [] (\<lambda>n. 0) (\<lambda>n. 0))\<lparr>orphanCheckCounter := 179\<rparr>"
  have d: "sweepDue ?g" by (simp add: sweepDue_def gameWith_def)
  have t: "territoryMap ?g = ring3x3" by (simp add: gameWith_def)
  show ?thesis
    using orphan_sweep_annexes [OF d, of 1 1] d t ring3x3_facts by simp
qed

text \<open>
  As first stated the claim has no condition on owner 1's share. On a 5x5 grid where owner 1
  holds only the two tiles next to the corner (8 percent), the corner tile is neutral and
  its four neighbours are owner 1's or outside the grid, and the due sweep leaves it neutral.
\<close>

theorem orphan_sweep_gate_counterexample:
  "sweepDue ((gameWith (setOwners (newTerritoryMap 5 5 4) [(1, 0), (0, 1)] 1) []
       (\<lambda>n. 0) (\<lambda>n. 0))\<lparr>orphanCheckCounter := 179\<rparr>) \<and>
   orphaned (setOwners (newTerritoryMap 5 5 4) [(1, 0), (0, 1)] 1) 0 0 \<and>
   getOwner (territoryMap (captureOrphanedTiles
     ((gameWith (setOwners (newTerritoryMap 5 5 4) [(1, 0), (0, 1)] 1) []
       (\<lambda>n. 0) (\<lambda>n. 0))\<lparr>orphanCheckCounter := 179\<rparr>))) 0 0 = 0"
  by code_simp

section \<open>Collisions with another player's tail\<close>

lemma isPlayerBoosted_fields [simp]:
  "allPlayers (snd (isPlayerBoosted g k)) = allPlayers g"
  "territoryMap (snd (isPlayerBoosted g k)) = territoryMap g"
  "boostEndTimes (snd (isPlayerBoosted g k)) = boostEndTimes g"
  "difficulty (snd (isPlayerBoosted g k)) = difficulty g"
  "clockSource (snd (isPlayerBoosted g k)) = clockSource g"
  by (simp_all add: isPlayerBoosted_def performanceNow_def split: option.splits)







subsection \<open>The whole pass\<close>

lemma clockAdvanced_refl [simp]: "clockAdvanced g g"
  by (simp add: clockAdvanced_def)




































section \<open>Camping and shrinking\<close>

lemma removeTiles_eq:
  "removeTiles t pt n r ps =
     setOwners t (take (nat (n - r)) (filter (\<lambda>p. p \<noteq> pt) ps)) 0"
proof (induction ps arbitrary: t r)
  case Nil
  then show ?case by (simp add: setOwners_def)
next
  case (Cons p ps)
  show ?case
  proof (cases "r \<ge> n")
    case True
    then show ?thesis by (simp add: setOwners_def)
  next
    case False
    then have n: "nat (n - r) = Suc (nat (n - (r + 1)))" by simp
    show ?thesis
    proof (cases "p = pt")
      case True
      then show ?thesis using False Cons.IH [of t r] by simp
    next
      case ne: False
      then have "\<not> (fst p = fst pt \<and> snd p = snd pt)" by (auto simp: prod_eq_iff)
      then show ?thesis
        using False ne Cons.IH [of "setOwner t (fst p) (snd p) 0" "r + 1"]
        by (auto simp: n setOwners_def)
    qed
  qed
qed

lemma setOwners_shape [simp]:
  "widthTiles (setOwners t ps v) = widthTiles t"
  "heightTiles (setOwners t ps v) = heightTiles t"
  "wellFormed (setOwners t ps v) = wellFormed t"
  unfolding setOwners_def by (induction ps arbitrary: t) simp_all

lemma getOwner_setOwners:
  assumes "wellFormed t" "\<forall>p \<in> set ps. isValidTile t (fst p) (snd p)"
  shows "getOwner (setOwners t ps v) tx ty =
           (if (tx, ty) \<in> set ps then v mod 256 else getOwner t tx ty)"
  using assms
proof (induction ps arbitrary: t)
  case Nil
  then show ?case by (simp add: setOwners_def)
next
  case (Cons p ps)
  let ?t = "setOwner t (fst p) (snd p) v"
  have wf: "wellFormed ?t" using Cons.prems(1) by simp
  have va: "\<forall>q \<in> set ps. isValidTile ?t (fst q) (snd q)" using Cons.prems(2) by simp
  have s: "setOwners t (p # ps) v = setOwners ?t ps v" by (simp add: setOwners_def)
  have vp: "isValidTile t (fst p) (snd p)" using Cons.prems(2) by simp
  show ?case
    unfolding s Cons.IH [OF wf va]
    using vp by (auto simp: getOwner_setOwner [OF Cons.prems(1)] prod_eq_iff)
qed

lemma mathRandom_fields [simp]:
  "territoryMap (snd (mathRandom g)) = territoryMap g"
  "allPlayers (snd (mathRandom g)) = allPlayers g"
  "randomSource (snd (mathRandom g)) = randomSource g"
  "campingTimers (snd (mathRandom g)) = campingTimers g"
  "shrinkAccumulators (snd (mathRandom g)) = shrinkAccumulators g"
  by (simp_all add: mathRandom_def)

lemma shuffleFrom_perm:
  assumes "n < length xs" "\<forall>k. 0 \<le> randomSource g k \<and> randomSource g k < 1"
  shows "mset (fst (shuffleFrom n (xs, g))) = mset xs \<and>
         territoryMap (snd (shuffleFrom n (xs, g))) = territoryMap g \<and>
         campingTimers (snd (shuffleFrom n (xs, g))) = campingTimers g \<and>
         shrinkAccumulators (snd (shuffleFrom n (xs, g))) = shrinkAccumulators g"
  using assms
proof (induction n arbitrary: xs g)
  case 0
  then show ?case by simp
next
  case (Suc n)
  obtain r g' where m: "mathRandom g = (r, g')" by (cases "mathRandom g")
  then have r: "r = randomSource g (randomCalls g)" and g': "g' = snd (mathRandom g)"
    by (auto simp: mathRandom_def)
  let ?j = "nat \<lfloor>r * real (Suc n + 1)\<rfloor>"
  let ?xs = "xs[Suc n := xs ! ?j, ?j := xs ! Suc n]"
  from Suc.prems(2) r have r01: "0 \<le> r" "r < 1" by auto
  have "r * real (Suc n + 1) < real (Suc n + 1)" using r01 by simp
  then have "\<lfloor>r * real (Suc n + 1)\<rfloor> < int (Suc n + 1)" by (simp add: floor_less_iff)
  then have j: "?j < length xs" using Suc.prems(1) by linarith
  have p: "mset ?xs = mset xs" using j Suc.prems(1) by (simp add: mset_swap)
  have l: "n < length ?xs" using Suc.prems(1) by simp
  have rs: "\<forall>k. 0 \<le> randomSource g' k \<and> randomSource g' k < 1"
    using Suc.prems(2) by (simp add: g')
  have s: "shuffleFrom (Suc n) (xs, g) = shuffleFrom n (?xs, g')"
    by (simp add: m Let_def)
  show ?case
    unfolding s using Suc.IH [OF l rs] p by (simp add: g')
qed

lemma distinct_concat_map:
  assumes "distinct ys" "\<And>y. y \<in> set ys \<Longrightarrow> distinct (f y)"
    "\<And>y y'. y \<in> set ys \<Longrightarrow> y' \<in> set ys \<Longrightarrow> y \<noteq> y' \<Longrightarrow> set (f y) \<inter> set (f y') = {}"
  shows "distinct (concat (map f ys))"
  using assms
proof (induction ys)
  case Nil
  then show ?case by simp
next
  case (Cons y ys)
  have "distinct (concat (map f ys))" using Cons by simp
  moreover have "set (f y) \<inter> set (f y') = {}" if "y' \<in> set ys" for y'
    using Cons.prems(1) Cons.prems(3) [of y y'] that by auto
  ultimately show ?case using Cons.prems(2) [of y] by auto
qed

lemma allTiles_distinct: "distinct (allTiles t)"
  unfolding allTiles_def
  by (rule distinct_concat_map) (auto simp: distinct_map inj_on_def)

lemma allTiles_valid: "p \<in> set (allTiles t) \<Longrightarrow> isValidTile t (fst p) (snd p)"
  by (auto simp: allTiles_def isValidTile_def)

lemma getBorderTiles_facts:
  "distinct (getBorderTiles t k)"
  "p \<in> set (getBorderTiles t k) \<Longrightarrow> isValidTile t (fst p) (snd p)"
  "p \<in> set (getBorderTiles t k) \<Longrightarrow> getOwner t (fst p) (snd p) = k"
  by (auto simp: getBorderTiles_def allTiles_distinct allTiles_valid getOwner_def)


lemma find_by_ident:
  assumes "distinct (map ident ps)" "i < length ps"
  shows "List.find (\<lambda>p. ident p = ident (ps ! i)) ps = Some (ps ! i)"
proof -
  have "ident (ps ! j) \<noteq> ident (ps ! i)" if "j < i" for j
  proof -
    from that assms(2) have "j < length (map ident ps)" "i < length (map ident ps)" "j \<noteq> i"
      by auto
    then have "map ident ps ! j \<noteq> map ident ps ! i"
      using nth_eq_iff_index_eq [OF assms(1), of j i] by blast
    with that assms(2) show ?thesis by simp
  qed
  with assms(2) show ?thesis by (auto simp: find_Some_iff)
qed

lemma shrinkTerritory_spec:
  assumes wf: "wellFormed (territoryMap g)"
    and rnd: "\<forall>k. 0 \<le> randomSource g k \<and> randomSource g k < 1"
    and fnd: "List.find (\<lambda>p. ident p = k) (allPlayers g) = Some pl"
  shows "\<exists>R. distinct R \<and>
           set R \<subseteq> set (getBorderTiles (territoryMap g) k) - {worldToTile (territoryMap g) (pos pl)} \<and>
           length R = min (nat n) (length (filter (\<lambda>p. p \<noteq> worldToTile (territoryMap g) (pos pl))
                                         (getBorderTiles (territoryMap g) k))) \<and>
           (\<forall>tx ty. getOwner (territoryMap (shrinkTerritory g k n)) tx ty =
                      (if (tx, ty) \<in> set R then 0 else getOwner (territoryMap g) tx ty)) \<and>
           campingTimers (shrinkTerritory g k n) = campingTimers g \<and>
           shrinkAccumulators (shrinkTerritory g k n) = shrinkAccumulators g"
proof (cases "getBorderTiles (territoryMap g) k = []")
  case True
  then have "shrinkTerritory g k n = g" by (simp add: shrinkTerritory_def)
  with True show ?thesis by (intro exI [of _ "[]"]) simp
next
  case False
  let ?t = "territoryMap g"
  let ?B = "getBorderTiles ?t k"
  let ?pt = "worldToTile ?t (pos pl)"
  let ?sh = "shuffleFrom (length ?B - Suc 0) (?B, g)"
  let ?R = "take (nat n) (filter (\<lambda>p. p \<noteq> ?pt) (fst ?sh))"
  from False have l: "length ?B - Suc 0 < length ?B" by simp
  note sp = shuffleFrom_perm [OF l rnd]
  from sp have ms: "mset (fst ?sh) = mset ?B" by simp
  then have st: "set (fst ?sh) = set ?B" by (rule mset_eq_setD)
  have ds: "distinct (fst ?sh)"
    using mset_eq_imp_distinct_iff [OF ms] getBorderTiles_facts(1) [of ?t k] by simp
  obtain sh g' where sh: "?sh = (sh, g')" by (cases ?sh)
  with sp have g': "territoryMap g' = ?t" "campingTimers g' = campingTimers g"
    "shrinkAccumulators g' = shrinkAccumulators g" by simp_all
  have st': "shrinkTerritory g k n =
      g'\<lparr>territoryMap := removeTiles (territoryMap g') ?pt n 0 sh\<rparr>"
    using False sh by (simp add: shrinkTerritory_def Let_def fnd)
  have tm: "territoryMap (shrinkTerritory g k n) = setOwners ?t ?R 0"
    by (simp add: st' g' removeTiles_eq sh)
  have other: "campingTimers (shrinkTerritory g k n) = campingTimers g"
    "shrinkAccumulators (shrinkTerritory g k n) = shrinkAccumulators g"
    by (simp_all add: st' g')
  have sub: "set ?R \<subseteq> set ?B - {?pt}"
  proof
    fix p assume "p \<in> set ?R"
    then have "p \<in> set (filter (\<lambda>p. p \<noteq> ?pt) (fst ?sh))" by (rule in_set_takeD)
    then show "p \<in> set ?B - {?pt}" by (simp add: st)
  qed
  then have valid: "\<forall>p \<in> set ?R. isValidTile ?t (fst p) (snd p)"
    using getBorderTiles_facts(2) [of _ ?t k] by blast
  have "length (filter (\<lambda>p. p \<noteq> ?pt) (fst ?sh)) = length (filter (\<lambda>p. p \<noteq> ?pt) ?B)"
  proof -
    have "mset (filter (\<lambda>p. p \<noteq> ?pt) (fst ?sh)) = mset (filter (\<lambda>p. p \<noteq> ?pt) ?B)"
      by (simp add: ms)
    then show ?thesis by (rule mset_eq_length)
  qed
  then have len: "length ?R = min (nat n) (length (filter (\<lambda>p. p \<noteq> ?pt) ?B))"
    by simp
  have dr: "distinct ?R" using ds by simp
  have go: "\<forall>tx ty. getOwner (territoryMap (shrinkTerritory g k n)) tx ty =
                      (if (tx, ty) \<in> set ?R then 0 else getOwner ?t tx ty)"
    by (simp only: tm getOwner_setOwners [OF wf valid]) simp
  show ?thesis
    by (intro exI [of _ ?R] conjI) (rule dr sub len go other)+
qed


lemma getOrZero_update [simp]: "getOrZero (AList.update k v c) k = v"
  by (simp add: getOrZero_def update_conv')

lemma campingStep_dead:
  assumes "\<not> alive (allPlayers g ! i)"
  shows "campingStep dt g i =
     g\<lparr>campingTimers := AList.update (ident (allPlayers g ! i)) 0 (campingTimers g),
       shrinkAccumulators := AList.update (ident (allPlayers g ! i)) 0 (shrinkAccumulators g)\<rparr>"
  using assms by (simp add: campingStep_def Let_def)

lemma campingStep_away:
  assumes "alive (allPlayers g ! i)" "\<not> isCamping g (allPlayers g ! i)"
  shows "campingStep dt g i =
     g\<lparr>campingTimers := AList.update (ident (allPlayers g ! i))
          (max 0 (getOrZero (campingTimers g) (ident (allPlayers g ! i)) - dt)) (campingTimers g),
       shrinkAccumulators := AList.update (ident (allPlayers g ! i))
          (if max 0 (getOrZero (campingTimers g) (ident (allPlayers g ! i)) - dt)
                \<le> shrink_campingThreshold
           then 0 else getOrZero (shrinkAccumulators g) (ident (allPlayers g ! i)))
          (shrinkAccumulators g)\<rparr>"
  using assms by (auto simp: campingStep_def isCamping_def insideOwnTerritory_def Let_def)

lemma campingStep_camping_idle:
  assumes "isCamping g (allPlayers g ! i)"
    "\<not> (getOrZero (campingTimers g) (ident (allPlayers g ! i)) + dt > shrink_campingThreshold \<and>
        tilesDue dt g (allPlayers g ! i) > 0)"
  shows "territoryMap (campingStep dt g i) = territoryMap g \<and>
         getOrZero (campingTimers (campingStep dt g i)) (ident (allPlayers g ! i)) =
           getOrZero (campingTimers g) (ident (allPlayers g ! i)) + dt"
  using assms
  by (auto simp: campingStep_def isCamping_def insideOwnTerritory_def tilesDue_def Let_def)

lemma campingStep_camping_shrink:
  assumes "isCamping g (allPlayers g ! i)"
    "getOrZero (campingTimers g) (ident (allPlayers g ! i)) + dt > shrink_campingThreshold"
    "tilesDue dt g (allPlayers g ! i) > 0"
  shows "territoryMap (campingStep dt g i) =
           territoryMap (shrinkTerritory g (ident (allPlayers g ! i)) (tilesDue dt g (allPlayers g ! i))) \<and>
         getOrZero (campingTimers (campingStep dt g i)) (ident (allPlayers g ! i)) =
           getOrZero (campingTimers g) (ident (allPlayers g ! i)) + dt"
  using assms
  by (auto simp: campingStep_def isCamping_def insideOwnTerritory_def tilesDue_def Let_def)


text \<open>
  C7 (as amended). One player's step of the camping update. The timer of a camping player
  (alive, inside its own territory, no tail) grows by \<open>dt\<close>; that of a live player that is
  not camping falls by \<open>dt\<close>, floored at zero; that of a dead player is reset to zero. When a
  camping player's new timer exceeds the threshold and the accumulator is worth \<open>n > 0\<close>
  tiles at the configured rate, a set \<open>R\<close> of tiles of its current border set, never the
  tile it stands on, becomes neutral and nothing else on the grid changes; \<open>R\<close> has \<open>n\<close>
  tiles, or all border tiles but the player's own when these are fewer. In every other case
  the grid is unchanged. (Player ids are distinct and \<^verbatim>\<open>Math.random()\<close> returns values in
  \<open>[0, 1)\<close>.)
\<close>

theorem camping_timer_and_shrink:
  assumes i: "i < length (allPlayers g)"
    and ids: "distinct (map ident (allPlayers g))"
    and wf: "wellFormed (territoryMap g)"
    and rnd: "\<forall>k. 0 \<le> randomSource g k \<and> randomSource g k < 1"
  shows "(isCamping g (allPlayers g ! i) \<longrightarrow>
            getOrZero (campingTimers (campingStep dt g i)) (ident (allPlayers g ! i)) =
              getOrZero (campingTimers g) (ident (allPlayers g ! i)) + dt) \<and>
         (alive (allPlayers g ! i) \<and> \<not> isCamping g (allPlayers g ! i) \<longrightarrow>
            getOrZero (campingTimers (campingStep dt g i)) (ident (allPlayers g ! i)) =
              max 0 (getOrZero (campingTimers g) (ident (allPlayers g ! i)) - dt)) \<and>
         (\<not> alive (allPlayers g ! i) \<longrightarrow>
            getOrZero (campingTimers (campingStep dt g i)) (ident (allPlayers g ! i)) = 0) \<and>
         (isCamping g (allPlayers g ! i) \<and>
          getOrZero (campingTimers g) (ident (allPlayers g ! i)) + dt > shrink_campingThreshold \<and>
          tilesDue dt g (allPlayers g ! i) > 0 \<longrightarrow>
            (\<exists>R. distinct R \<and>
                 set R \<subseteq> set (getBorderTiles (territoryMap g) (ident (allPlayers g ! i))) -
                           {worldToTile (territoryMap g) (pos (allPlayers g ! i))} \<and>
                 length R =
                   min (nat (tilesDue dt g (allPlayers g ! i)))
                       (length (filter (\<lambda>p. p \<noteq> worldToTile (territoryMap g) (pos (allPlayers g ! i)))
                                  (getBorderTiles (territoryMap g) (ident (allPlayers g ! i))))) \<and>
                 (\<forall>tx ty. getOwner (territoryMap (campingStep dt g i)) tx ty =
                            (if (tx, ty) \<in> set R then 0 else getOwner (territoryMap g) tx ty)))) \<and>
         (\<not> (isCamping g (allPlayers g ! i) \<and>
             getOrZero (campingTimers g) (ident (allPlayers g ! i)) + dt > shrink_campingThreshold \<and>
             tilesDue dt g (allPlayers g ! i) > 0) \<longrightarrow>
            territoryMap (campingStep dt g i) = territoryMap g)"
proof -
  let ?p = "allPlayers g ! i"
  let ?g' = "campingStep dt g i"
  let ?T = "getOrZero (campingTimers g) (ident ?p)"
  let ?due = "?T + dt > shrink_campingThreshold \<and> tilesDue dt g ?p > 0"
  have f1: "isCamping g ?p \<longrightarrow> getOrZero (campingTimers ?g') (ident ?p) = ?T + dt"
  proof
    assume c: "isCamping g ?p"
    show "getOrZero (campingTimers ?g') (ident ?p) = ?T + dt"
    proof (cases ?due)
      case True
      then show ?thesis using campingStep_camping_shrink [OF c, of dt] by simp
    next
      case False
      then show ?thesis using campingStep_camping_idle [OF c, of dt] by simp
    qed
  qed
  have f2: "alive ?p \<and> \<not> isCamping g ?p \<longrightarrow>
            getOrZero (campingTimers ?g') (ident ?p) = max 0 (?T - dt)"
    by (auto simp: campingStep_away)
  have f3: "\<not> alive ?p \<longrightarrow> getOrZero (campingTimers ?g') (ident ?p) = 0"
    by (simp add: campingStep_dead)
  have f4: "isCamping g ?p \<and> ?T + dt > shrink_campingThreshold \<and> tilesDue dt g ?p > 0 \<longrightarrow>
            (\<exists>R. distinct R \<and>
                 set R \<subseteq> set (getBorderTiles (territoryMap g) (ident ?p)) -
                           {worldToTile (territoryMap g) (pos ?p)} \<and>
                 length R =
                   min (nat (tilesDue dt g ?p))
                       (length (filter (\<lambda>p. p \<noteq> worldToTile (territoryMap g) (pos ?p))
                                  (getBorderTiles (territoryMap g) (ident ?p)))) \<and>
                 (\<forall>tx ty. getOwner (territoryMap ?g') tx ty =
                            (if (tx, ty) \<in> set R then 0 else getOwner (territoryMap g) tx ty)))"
  proof
    assume h: "isCamping g ?p \<and> ?T + dt > shrink_campingThreshold \<and> tilesDue dt g ?p > 0"
    then have tm: "territoryMap ?g' =
        territoryMap (shrinkTerritory g (ident ?p) (tilesDue dt g ?p))"
      using campingStep_camping_shrink [of g i dt] by simp
    obtain R where R: "distinct R"
      "set R \<subseteq> set (getBorderTiles (territoryMap g) (ident ?p)) -
                 {worldToTile (territoryMap g) (pos ?p)}"
      "length R = min (nat (tilesDue dt g ?p))
          (length (filter (\<lambda>p. p \<noteq> worldToTile (territoryMap g) (pos ?p))
                     (getBorderTiles (territoryMap g) (ident ?p))))"
      "\<forall>tx ty. getOwner (territoryMap (shrinkTerritory g (ident ?p) (tilesDue dt g ?p))) tx ty =
                 (if (tx, ty) \<in> set R then 0 else getOwner (territoryMap g) tx ty)"
      using shrinkTerritory_spec [OF wf rnd find_by_ident [OF ids i], of "tilesDue dt g ?p"]
      by blast
    show "\<exists>R. distinct R \<and>
                 set R \<subseteq> set (getBorderTiles (territoryMap g) (ident ?p)) -
                           {worldToTile (territoryMap g) (pos ?p)} \<and>
                 length R =
                   min (nat (tilesDue dt g ?p))
                       (length (filter (\<lambda>p. p \<noteq> worldToTile (territoryMap g) (pos ?p))
                                  (getBorderTiles (territoryMap g) (ident ?p)))) \<and>
                 (\<forall>tx ty. getOwner (territoryMap ?g') tx ty =
                            (if (tx, ty) \<in> set R then 0 else getOwner (territoryMap g) tx ty))"
      unfolding tm by (intro exI [of _ R] conjI) (rule R)+
  qed
  have f5: "\<not> (isCamping g ?p \<and> ?T + dt > shrink_campingThreshold \<and> tilesDue dt g ?p > 0) \<longrightarrow>
            territoryMap ?g' = territoryMap g"
  proof
    assume h: "\<not> (isCamping g ?p \<and> ?T + dt > shrink_campingThreshold \<and> tilesDue dt g ?p > 0)"
    show "territoryMap ?g' = territoryMap g"
    proof (cases "alive ?p")
      case False
      then show ?thesis by (simp add: campingStep_dead)
    next
      case True
      show ?thesis
      proof (cases "isCamping g ?p")
        case False
        with True show ?thesis by (simp add: campingStep_away)
      next
        case c: True
        with h show ?thesis using campingStep_camping_idle [OF c, of dt] by blast
      qed
    qed
  qed
  show ?thesis by (intro conjI) (rule f1 f2 f3 f4 f5)+
qed


theorem camping_timer_and_shrink_witness:
  "isCamping (campGame 1 True [(0, 1), (1, 1), (2, 1)] 3)
     (allPlayers (campGame 1 True [(0, 1), (1, 1), (2, 1)] 3) ! 0) \<and>
   tilesDue (1 / 60) (campGame 1 True [(0, 1), (1, 1), (2, 1)] 3)
     (allPlayers (campGame 1 True [(0, 1), (1, 1), (2, 1)] 3) ! 0) = 2 \<and>
   getOrZero (campingTimers (campingStep (1 / 60) (campGame 1 True [(0, 1), (1, 1), (2, 1)] 3) 0)) 1
     = 3 + 1 / 60 \<and>
   getOwner (territoryMap (campingStep (1 / 60) (campGame 1 True [(0, 1), (1, 1), (2, 1)] 3) 0)) 1 1 = 1 \<and>
   getOwner (territoryMap (campingStep (1 / 60) (campGame 1 True [(0, 1), (1, 1), (2, 1)] 3) 0)) 0 0 = 0"
proof -
  let ?g = "campGame 1 True [(0, 1), (1, 1), (2, 1)] 3"
  let ?p = "\<lparr>ident = 1, isBot = False, pos = (6, 6), dir = (1, 0), speed = 150, alive = True,
           angle = 0, targetAngle = 0, tail = [], isDrawingTail = False, lastTailPoint = None,
           kills = 0, timeAlive = 0\<rparr>"
  have ps: "allPlayers ?g = [?p]" by (simp add: campGame_def gameWith_def)
  have tm: "territoryMap ?g = setOwners (newTerritoryMap 3 3 4) [(0, 1), (1, 1), (2, 1)] 1"
    by (simp add: campGame_def gameWith_def)
  have i: "0 < length (allPlayers ?g)" and ids: "distinct (map ident (allPlayers ?g))"
    by (simp_all add: ps)
  have wf: "wellFormed (territoryMap ?g)" unfolding tm by code_simp
  have rnd: "\<forall>k. 0 \<le> randomSource ?g k \<and> randomSource ?g k < 1"
    by (simp add: campGame_def gameWith_def)
  have pt: "worldToTile (territoryMap ?g) (pos (allPlayers ?g ! 0)) = (1, 1)"
    by (simp add: ps tm worldToTile_def setOwners_def newTerritoryMap_def)
  have own: "getOwner (territoryMap ?g) 1 1 = 1" "getOwner (territoryMap ?g) 0 0 = 0"
    unfolding tm by code_simp+
  have c: "isCamping ?g (allPlayers ?g ! 0)"
    using own by (simp add: isCamping_def insideOwnTerritory_def pt) (simp add: ps)
  have T: "getOrZero (campingTimers ?g) (ident (allPlayers ?g ! 0)) = 3"
    by (simp add: campGame_def gameWith_def getOrZero_def)
  have d: "tilesDue (1 / 60) ?g (allPlayers ?g ! 0) = 2"
    by (simp add: tilesDue_def campGame_def gameWith_def getOrZero_def shrink_rate_def)
  have due: "isCamping ?g (allPlayers ?g ! 0) \<and>
      getOrZero (campingTimers ?g) (ident (allPlayers ?g ! 0)) + 1 / 60 > shrink_campingThreshold \<and>
      tilesDue (1 / 60) ?g (allPlayers ?g ! 0) > 0"
    using c by (simp add: T d shrink_campingThreshold_def)
  note th = camping_timer_and_shrink [OF i ids wf rnd, of "1 / 60"]
  have t1: "getOrZero (campingTimers (campingStep (1 / 60) ?g 0)) 1 = 3 + 1 / 60"
    using th [THEN conjunct1, rule_format, OF c] T by (simp add: ps)
  obtain R where R: "set R \<subseteq> set (getBorderTiles (territoryMap ?g) (ident (allPlayers ?g ! 0))) -
          {worldToTile (territoryMap ?g) (pos (allPlayers ?g ! 0))}"
      "\<forall>tx ty. getOwner (territoryMap (campingStep (1 / 60) ?g 0)) tx ty =
                 (if (tx, ty) \<in> set R then 0 else getOwner (territoryMap ?g) tx ty)"
    using th [THEN conjunct2, THEN conjunct2, THEN conjunct2, THEN conjunct1, rule_format, OF due]
    by blast
  from R(1) have "(1, 1) \<notin> set R" by (auto simp: pt)
  with R(2) own have t2: "getOwner (territoryMap (campingStep (1 / 60) ?g 0)) 1 1 = 1" by simp
  have t3: "getOwner (territoryMap (campingStep (1 / 60) ?g 0)) 0 0 = 0"
    using R(2) own by simp
  show ?thesis using c d t1 t2 t3 by simp
qed

text \<open>
  As first stated the claim lets the timer of every agent that is not camping fall by \<open>dt\<close>,
  and has as many border tiles removed as the accumulator is worth. A dead agent's timer is
  reset instead: from 5 it goes to 0, not to \<open>5 - 1/60\<close>. And an agent whose only tile is the
  one it stands on loses nothing although 2 tiles are due.
\<close>

theorem camping_counterexample:
  "\<not> alive (allPlayers (campGame 2 False [] 5) ! 0) \<and>
   getOrZero (campingTimers (campGame 2 False [] 5)) 2 = 5 \<and>
   getOrZero (campingTimers (campingStep (1 / 60) (campGame 2 False [] 5) 0)) 2 = 0 \<and>
   isCamping (campGame 1 True [(1, 1)] 3) (allPlayers (campGame 1 True [(1, 1)] 3) ! 0) \<and>
   getOrZero (campingTimers (campGame 1 True [(1, 1)] 3)) 1 + 1 / 60 > shrink_campingThreshold \<and>
   tilesDue (1 / 60) (campGame 1 True [(1, 1)] 3) (allPlayers (campGame 1 True [(1, 1)] 3) ! 0) = 2 \<and>
   getBorderTiles (territoryMap (campGame 1 True [(1, 1)] 3)) 1 = [(1, 1)] \<and>
   ownerMap (territoryMap (campingStep (1 / 60) (campGame 1 True [(1, 1)] 3) 0)) =
     ownerMap (territoryMap (campGame 1 True [(1, 1)] 3))"
  by code_simp

section \<open>Scheduling of captures\<close>

















end
